theory Spec2Isabelle
  imports Complex_Main "HOL-Library.Sublist"
begin

section \<open>The gateway shard of Kodcord (src/core/sharding/shard.ts)\<close>

text \<open>
  A shallow embedding of the class \<open>Shard\<close>. The object's fields are a record; every
  method is a function from the state before the call to the state after it. What the
  shard does to its surroundings (frames written to the socket, the socket being closed
  or replaced, lines given to the logger, the payload handler being called) is appended
  to the field \<open>trace\<close>, in the order in which the code does it. Interval timers are
  kept as the list \<open>timers\<close> of the timers that are armed, so that \<open>setInterval\<close> and
  \<open>clearInterval\<close> are state changes.

  JavaScript numbers are modelled as \<open>int\<close> where the code only stores and compares
  them (sequence numbers, close codes, opcodes) and as \<open>real\<close> where it divides them
  (the heartbeat interval and the rate-limit options); rounding of doubles is not
  modelled. Strings are \<open>string\<close>. A method is one function where nothing else can run
  between its statements. Two waits are modelled as such, since other handlers run
  meanwhile: the wait of \<open>send\<close> on the offline queue, and the \<open>await\<close> of the Hello
  case of \<open>onpacket\<close>, which stands between cancelling the heartbeat timer and arming
  the new one (\<open>hello_begin\<close>, \<open>hello_resume\<close>).
\<close>

subsection \<open>Wire constants\<close>

text \<open>
  \<open>GatewayOpcodes\<close> and \<open>GatewayCloseCodes\<close> are enums of the package
  discord-api-types/v10, which the shard imports; their values are the ones that package
  declares. \<open>ShardSocketCloseCodes\<close> is declared in types.d.ts.
\<close>

definition Op_Heartbeat :: int where "Op_Heartbeat = 1"
definition Op_Identify :: int where "Op_Identify = 2"
definition Op_Resume :: int where "Op_Resume = 6"

definition Shutdown :: int where "Shutdown = 3000"
definition ZombiedConnection :: int where "ZombiedConnection = 3010"

definition UnknownError :: int where "UnknownError = 4000"
definition UnknownOpcode :: int where "UnknownOpcode = 4001"
definition DecodeError :: int where "DecodeError = 4002"
definition NotAuthenticated :: int where "NotAuthenticated = 4003"
definition AuthenticationFailed :: int where "AuthenticationFailed = 4004"
definition AlreadyAuthenticated :: int where "AlreadyAuthenticated = 4005"
definition InvalidSeq :: int where "InvalidSeq = 4007"
definition RateLimited :: int where "RateLimited = 4008"
definition SessionTimedOut :: int where "SessionTimedOut = 4009"
definition InvalidShard :: int where "InvalidShard = 4010"
definition ShardingRequired :: int where "ShardingRequired = 4011"
definition InvalidAPIVersion :: int where "InvalidAPIVersion = 4012"
definition InvalidIntents :: int where "InvalidIntents = 4013"
definition DisallowedIntents :: int where "DisallowedIntents = 4014"

subsection \<open>Data\<close>

datatype error = TypeError

text \<open>A JSON value: what \<open>JSON.stringify\<close> walks over.\<close>

datatype json =
    JNull
  | JBool bool
  | JNum int
  | JStr string
  | JArr "json list"
  | JObj "(string \<times> json) list"

text \<open>A frame the shard writes: \<open>{op, d}\<close>.\<close>

record message =
  msg_op :: int
  msg_d :: json

text \<open>
  A packet the shard reads (\<open>GatewayReceivePayload\<close>): the sequence number \<open>s\<close> and,
  by opcode, the part of \<open>d\<close> and \<open>t\<close> the shard looks at.
\<close>

datatype dispatch =
    Ready string string
  | Resumed
  | OtherEvent string

datatype payload =
    Hello real
  | HeartbeatAck
  | Heartbeat
  | Reconnect
  | InvalidSession bool
  | Dispatch dispatch
  | OtherOp int

record packet =
  pkt_s :: "int option"
  pkt_body :: payload

datatype level = Debug | Inform | Warn | Throw

datatype part = T string | N int | B bool | J json

datatype event =
    Log level "part list"
  | GateWait
  | WsNew string
  | WsSend message
  | WsClose int string
  | BucketProcess bool
  | HandlePayload int packet

text \<open>
  A \<open>send\<close> that waits on the offline queue: after the first \<open>checkOffline\<close> it still
  has to pass the bucket, the second \<open>checkOffline\<close> and the write; after the second,
  the write only.
\<close>

datatype suspended = AwaitFirst bool message | AwaitSecond message

datatype jsnum = Finite real | PosInfinity | NotANumber

record ShardData =
  resume_seq :: "int option"
  resume_gateway_url :: "string option"
  session_id :: "string option"

record ShardHeart =
  interval :: real
  nodeInterval :: "nat option"
  lastAck :: "nat option"
  lastBeat :: "nat option"
  ack :: bool

record IdentifyProperties =
  os :: string
  browser :: string
  device :: string

record RatelimitOptions =
  maxRequestsPerRateLimitTick :: real
  rateLimitResetInterval :: real

text \<open>\<open>ShardOptions\<close> as the caller gives them: \<open>None\<close> is an absent property.\<close>

record ShardOptions =
  token :: string
  info_url :: string
  info_shards :: int
  intents :: int
  compress :: bool
  presence :: "json option"
  debug :: bool
  properties :: "IdentifyProperties option"
  ratelimitOptions :: "RatelimitOptions option"

text \<open>
  \<open>MakeRequired<ShardOptions, "properties" | "ratelimitOptions">\<close>: the options the
  constructor stores, with the two defaults filled in.
\<close>

record RequiredOptions =
  given :: ShardOptions
  req_properties :: IdentifyProperties
  req_ratelimitOptions :: RatelimitOptions

text \<open>
  The shard. \<open>websocket\<close> is the \<open>readyState\<close> of the current socket (0 connecting,
  1 open, 2 closing, 3 closed), \<open>None\<close> for \<open>null\<close>. \<open>logger\<close> exists only under
  \<open>options.debug\<close>, so it is read from the options. \<open>bucket\<close> is the number the
  constructor hands to \<open>new Bucket\<close> (the class Bucket is not among the sources).
  \<open>offlineSendQueue\<close> holds the resolvers by the number of their promise; \<open>pending\<close>
  maps the promises that are not settled yet to the \<open>send\<close> that awaits them. The last
  fields are the surroundings: the armed interval timers (handle and period), the next
  free handle and promise number, the clock \<open>Date.now()\<close> and the trace.
\<close>

record Shard =
  shard_id :: int
  options :: RequiredOptions
  data :: ShardData
  heart :: ShardHeart
  websocket :: "nat option"
  bucket :: jsnum
  offlineSendQueue :: "nat list"
  pending :: "(nat \<times> suspended) list"
  next_promise :: nat
  timers :: "(nat \<times> real) list"
  next_timer :: nat
  now :: nat
  trace :: "event list"

subsection \<open>Small steps on the surroundings\<close>

definition emit :: "event \<Rightarrow> Shard \<Rightarrow> Shard" where
  "emit e st = st\<lparr>trace := trace st @ [e]\<rparr>"

text \<open>\<open>this.logger?.level(...)\<close>: nothing happens without a logger.\<close>

definition has_logger :: "Shard \<Rightarrow> bool" where
  "has_logger st = debug (given (options st))"

definition logger :: "level \<Rightarrow> part list \<Rightarrow> Shard \<Rightarrow> Shard" where
  "logger lv ps st = (if has_logger st then emit (Log lv ps) st else st)"

definition tag :: "Shard \<Rightarrow> part list" where
  "tag st = [T ''[Shard #'', N (shard_id st), T '']'']"

definition clearInterval :: "nat option \<Rightarrow> Shard \<Rightarrow> Shard" where
  "clearInterval h st = st\<lparr>timers := filter (\<lambda>(k, p). Some k \<noteq> h) (timers st)\<rparr>"

text \<open>\<open>this.heart.nodeInterval = setInterval(() => this.heartbeat(false), period)\<close>.\<close>

definition setInterval :: "real \<Rightarrow> Shard \<Rightarrow> Shard" where
  "setInterval period st =
     st\<lparr>timers := timers st @ [(next_timer st, period)],
        next_timer := Suc (next_timer st),
        heart := (heart st)\<lparr>nodeInterval := Some (next_timer st)\<rparr>\<rparr>"

definition isOpen :: "Shard \<Rightarrow> bool" where
  "isOpen st = (websocket st = Some 1)"

text \<open>
  \<open>this.websocket?.send(JSON.stringify(m))\<close>. The frame is kept as the message it
  encodes. Calls on the socket are recorded and taken to return.
\<close>

definition ws_send :: "message \<Rightarrow> Shard \<Rightarrow> Shard" where
  "ws_send m st = (case websocket st of None \<Rightarrow> st | Some r \<Rightarrow> emit (WsSend m) st)"

text \<open>
  \<open>this.websocket?.close(code, reason)\<close>. It is reached on an open socket only, whose
  \<open>readyState\<close> the call turns to closing (2).
\<close>

definition ws_close :: "int \<Rightarrow> string \<Rightarrow> Shard \<Rightarrow> Shard" where
  "ws_close code reason st =
     (case websocket st of
        None \<Rightarrow> st
      | Some r \<Rightarrow> emit (WsClose code reason) (st\<lparr>websocket := Some 2\<rparr>))"

subsection \<open>Redacting the token in the log of send\<close>

text \<open>\<open>v.split(".")\<close>.\<close>

fun split_dot :: "string \<Rightarrow> string list" where
  "split_dot [] = [[]]"
| "split_dot (c # cs) =
     (if c = CHR ''.'' then [] # split_dot cs
      else (case split_dot cs of [] \<Rightarrow> [[c]] | p # ps \<Rightarrow> (c # p) # ps))"

definition stars :: "nat \<Rightarrow> string" where
  "stars n = replicate n (CHR ''*'')"

text \<open>
  The function given to \<open>replaceAll\<close>. \<open>SPLIT[1].length\<close> and \<open>SPLIT[2].length\<close> throw
  a TypeError when the matched text has fewer than three segments.
\<close>

definition mask :: "string \<Rightarrow> error + string" where
  "mask v =
     (case split_dot v of
        s0 # s1 # s2 # rest \<Rightarrow>
          Inr (s0 @ ''.'' @ stars (length s1) @ ''.'' @ stars (length s2))
      | _ \<Rightarrow> Inl TypeError)"

text \<open>
  \<open>value.replaceAll(pat, f)\<close> for a pattern that is not empty: the occurrences are
  found from left to right, each search starting behind the occurrence before; \<open>f\<close> is
  called for an occurrence only, and its result (\<open>r\<close>, the same at every call since the
  matched text is the pattern) stands in for it.
\<close>

fun replace_scan :: "string \<Rightarrow> error + string \<Rightarrow> string \<Rightarrow> error + string" where
  "replace_scan pat r [] = Inr []"
| "replace_scan pat r (c # cs) =
     (if prefix pat (c # cs) then
        (case r of
           Inl e \<Rightarrow> Inl e
         | Inr m \<Rightarrow>
             (case replace_scan pat r (drop (length pat - 1) cs) of
                Inl e \<Rightarrow> Inl e
              | Inr out \<Rightarrow> Inr (m @ out)))
      else
        (case replace_scan pat r cs of
           Inl e \<Rightarrow> Inl e
         | Inr out \<Rightarrow> Inr (c # out)))"

text \<open>
  The empty pattern matches before every character and at the end, so \<open>f\<close> is called
  in any case.
\<close>

definition replaceAll :: "string \<Rightarrow> string \<Rightarrow> (string \<Rightarrow> error + string) \<Rightarrow> error + string" where
  "replaceAll v pat f =
     (if pat = [] then
        (case f [] of
           Inl e \<Rightarrow> Inl e
         | Inr m \<Rightarrow> Inr (m @ concat (map (\<lambda>c. c # m) v)))
      else replace_scan pat (f pat) v)"

text \<open>
  The replacer of \<open>JSON.stringify(message.d, replacer, 1)\<close>: it is called on \<open>d\<close> and
  on every value inside it, in order, changes the strings and leaves the rest as it is.
  Property names are not given to it as values.
\<close>

fun redact_json :: "string \<Rightarrow> json \<Rightarrow> error + json"
  and redact_list :: "string \<Rightarrow> json list \<Rightarrow> error + json list"
  and redact_fields :: "string \<Rightarrow> (string \<times> json) list \<Rightarrow> error + (string \<times> json) list"
where
  "redact_json tok JNull = Inr JNull"
| "redact_json tok (JBool b) = Inr (JBool b)"
| "redact_json tok (JNum n) = Inr (JNum n)"
| "redact_json tok (JStr v) =
     (case replaceAll v tok mask of Inl e \<Rightarrow> Inl e | Inr w \<Rightarrow> Inr (JStr w))"
| "redact_json tok (JArr xs) =
     (case redact_list tok xs of Inl e \<Rightarrow> Inl e | Inr ys \<Rightarrow> Inr (JArr ys))"
| "redact_json tok (JObj fs) =
     (case redact_fields tok fs of Inl e \<Rightarrow> Inl e | Inr gs \<Rightarrow> Inr (JObj gs))"
| "redact_list tok [] = Inr []"
| "redact_list tok (x # xs) =
     (case redact_json tok x of
        Inl e \<Rightarrow> Inl e
      | Inr y \<Rightarrow> (case redact_list tok xs of Inl e \<Rightarrow> Inl e | Inr ys \<Rightarrow> Inr (y # ys)))"
| "redact_fields tok [] = Inr []"
| "redact_fields tok (kv # fs) =
     (case redact_json tok (snd kv) of
        Inl e \<Rightarrow> Inl e
      | Inr y \<Rightarrow>
          (case redact_fields tok fs of
             Inl e \<Rightarrow> Inl e
           | Inr gs \<Rightarrow> Inr ((fst kv, y) # gs)))"

subsection \<open>The constructor\<close>

definition PROPERTIES :: "string \<Rightarrow> IdentifyProperties" where
  "PROPERTIES platform = \<lparr>os = platform, browser = ''Seyfert'', device = ''Seyfert''\<rparr>"

text \<open>
  \<open>calculateSafeRequests\<close> reads \<open>this.options.ratelimitOptions\<close> and
  \<open>this.heart.interval\<close>. A division by an interval of 0 gives an infinity or NaN in
  JavaScript, which the comparison with 0 then treats as written out here.
\<close>

definition calculateSafeRequests :: "RequiredOptions \<Rightarrow> ShardHeart \<Rightarrow> jsnum" where
  "calculateSafeRequests opts h =
     (let rl = req_ratelimitOptions opts in
      if interval h = 0 then
        (if 0 < rateLimitResetInterval rl then Finite 0
         else if rateLimitResetInterval rl = 0 then NotANumber
         else PosInfinity)
      else
        (let SAFE_REQUESTS =
               maxRequestsPerRateLimitTick rl
                 - of_int \<lceil>rateLimitResetInterval rl / interval h\<rceil> * 2
         in if SAFE_REQUESTS < 0 then Finite 0 else Finite SAFE_REQUESTS))"

text \<open>
  \<open>new Shard(id, options)\<close>; \<open>platform\<close> is \<open>process.platform\<close>. The field
  initialisers run first (\<open>heart = {interval: 30e3, ack: true}\<close>), then the body.
\<close>

definition initial_heart :: ShardHeart where
  "initial_heart =
     \<lparr>interval = 30000, nodeInterval = None, lastAck = None, lastBeat = None, ack = True\<rparr>"

definition required_options :: "string \<Rightarrow> ShardOptions \<Rightarrow> RequiredOptions" where
  "required_options platform opts =
     \<lparr>given = opts,
      req_properties =
        (case properties opts of None \<Rightarrow> PROPERTIES platform | Some p \<Rightarrow> p),
      req_ratelimitOptions =
        (case ratelimitOptions opts of
           None \<Rightarrow> \<lparr>maxRequestsPerRateLimitTick = 120, rateLimitResetInterval = 60000\<rparr>
         | Some rl \<Rightarrow> rl)\<rparr>"

definition Shard_new :: "string \<Rightarrow> int \<Rightarrow> ShardOptions \<Rightarrow> Shard" where
  "Shard_new platform i opts =
     \<lparr>shard_id = i,
      options = required_options platform opts,
      data = \<lparr>resume_seq = None, resume_gateway_url = None, session_id = None\<rparr>,
      heart = initial_heart,
      websocket = None,
      bucket = calculateSafeRequests (required_options platform opts) initial_heart,
      offlineSendQueue = [],
      pending = [],
      next_promise = 0,
      timers = [],
      next_timer = 0,
      now = 0,
      trace = []\<rparr>"

subsection \<open>The methods\<close>

text \<open>
  \<open>currentGatewayURL\<close>: the resume URL if there is one (\<open>??\<close>), else \<open>info.url\<close>. The
  query \<open>v=10\<close> that the URL object adds is not spelled out.
\<close>

definition currentGatewayURL :: "Shard \<Rightarrow> string" where
  "currentGatewayURL st =
     (case resume_gateway_url (data st) of
        None \<Rightarrow> info_url (given (options st))
      | Some u \<Rightarrow> u)"

definition close :: "int \<Rightarrow> string \<Rightarrow> Shard \<Rightarrow> Shard" where
  "close code reason st0 =
     (let st = clearInterval (nodeInterval (heart st0)) st0 in
      if \<not> isOpen st then logger Warn (tag st @ [T '' Is not open, reason:'', T reason]) st
      else ws_close code reason
             (logger Debug (tag st @ [T '' Called close with reason:'', T reason]) st))"

text \<open>
  \<open>connect\<close>. The gate \<open>connectTimeout.wait()\<close> (class ConnectTimeout, not among the
  sources) is taken to let the caller through. The four handlers the method installs on
  the new socket are among the events listed further down.
\<close>

definition connect :: "Shard \<Rightarrow> Shard" where
  "connect st0 =
     (let st = emit GateWait st0 in
      if isOpen st then logger Debug (tag st @ [T '' Attempted to connect while open'']) st
      else
        (let st1 = clearInterval (nodeInterval (heart st)) st;
             st2 = logger Debug (tag st1 @ [T '' Connecting to '', T (currentGatewayURL st1)]) st1
         in emit (WsNew (currentGatewayURL st2)) (st2\<lparr>websocket := Some 0\<rparr>)))"

definition opcode_name :: "int \<Rightarrow> string" where
  "opcode_name n =
     (if n = 0 then ''Dispatch'' else if n = 1 then ''Heartbeat''
      else if n = 2 then ''Identify'' else if n = 3 then ''PresenceUpdate''
      else if n = 4 then ''VoiceStateUpdate'' else if n = 6 then ''Resume''
      else if n = 7 then ''Reconnect'' else if n = 8 then ''RequestGuildMembers''
      else if n = 9 then ''InvalidSession'' else if n = 10 then ''Hello''
      else if n = 11 then ''HeartbeatAck'' else ''undefined'')"

text \<open>
  \<open>checkOffline(force)\<close>, awaited by a \<open>send\<close> that goes on as \<open>k\<close>: with the socket
  not open the resolver of a new promise is put at the front of the queue (\<open>unshift\<close>,
  force) or at its end (\<open>push\<close>) and the caller waits (\<open>Some\<close> of that state); otherwise
  the promise is resolved already and the caller goes on (\<open>None\<close>).
\<close>

definition checkOffline :: "bool \<Rightarrow> suspended \<Rightarrow> Shard \<Rightarrow> Shard option" where
  "checkOffline force k st =
     (if \<not> isOpen st then
        Some (st\<lparr>offlineSendQueue :=
                   (if force then next_promise st # offlineSendQueue st
                    else offlineSendQueue st @ [next_promise st]),
                 pending := pending st @ [(next_promise st, k)],
                 next_promise := Suc (next_promise st)\<rparr>)
      else None)"

text \<open>
  The first statement of \<open>send\<close>. The argument of \<open>logger?.inform\<close> is computed only
  when there is a logger; the replacer may throw there.
\<close>

definition send_log :: "message \<Rightarrow> Shard \<Rightarrow> error + Shard" where
  "send_log m st =
     (if has_logger st then
        (case redact_json (token (given (options st))) (msg_d m) of
           Inl e \<Rightarrow> Inl e
         | Inr j \<Rightarrow>
             Inr (emit (Log Inform
                    (tag st @ [T '' Sending: '', T (opcode_name (msg_op m)), T '' '', J j])) st))
      else Inr st)"

text \<open>What \<open>send\<close> does behind its first \<open>await\<close>, on a socket that stays as it is.\<close>

definition send_rest :: "bool \<Rightarrow> message \<Rightarrow> Shard \<Rightarrow> Shard" where
  "send_rest force m st =
     (let st1 = emit (BucketProcess force) st in
      case checkOffline force (AwaitSecond m) st1 of
        Some waiting \<Rightarrow> waiting
      | None \<Rightarrow> ws_send m st1)"

definition send :: "bool \<Rightarrow> message \<Rightarrow> Shard \<Rightarrow> error + Shard" where
  "send force m st =
     (case send_log m st of
        Inl e \<Rightarrow> Inl e
      | Inr st1 \<Rightarrow>
          Inr (case checkOffline force (AwaitFirst force m) st1 of
                 Some waiting \<Rightarrow> waiting
               | None \<Rightarrow> send_rest force m st1))"

definition properties_json :: "IdentifyProperties \<Rightarrow> json" where
  "properties_json p =
     JObj [(''os'', JStr (os p)), (''browser'', JStr (browser p)), (''device'', JStr (device p))]"

definition identify_message :: "Shard \<Rightarrow> message" where
  "identify_message st =
     \<lparr>msg_op = Op_Identify,
      msg_d = JObj
        ([(''token'', JStr (''Bot '' @ token (given (options st)))),
          (''compress'', JBool (compress (given (options st)))),
          (''properties'', properties_json (req_properties (options st))),
          (''shard'', JArr [JNum (shard_id st), JNum (info_shards (given (options st)))]),
          (''intents'', JNum (intents (given (options st))))]
         @ (case presence (given (options st)) of
              None \<Rightarrow> []
            | Some p \<Rightarrow> [(''presence'', p)]))\<rparr>"

definition identify :: "Shard \<Rightarrow> error + Shard" where
  "identify st = send True (identify_message st) st"

definition truthy :: "string option \<Rightarrow> bool" where
  "truthy v = (case v of None \<Rightarrow> False | Some str \<Rightarrow> str \<noteq> [])"

text \<open>
  \<open>!!(resume_gateway_url && session_id && resume_seq !== null)\<close>: a string counts
  when it is there and not empty.
\<close>

definition resumable :: "Shard \<Rightarrow> bool" where
  "resumable st =
     (truthy (resume_gateway_url (data st)) \<and> truthy (session_id (data st))
      \<and> resume_seq (data st) \<noteq> None)"

definition resume_message :: "Shard \<Rightarrow> message" where
  "resume_message st =
     \<lparr>msg_op = Op_Resume,
      msg_d = JObj
        [(''seq'', JNum (case resume_seq (data st) of None \<Rightarrow> 0 | Some n \<Rightarrow> n)),
         (''session_id'', JStr (case session_id (data st) of None \<Rightarrow> [] | Some sid \<Rightarrow> sid)),
         (''token'', JStr (''Bot '' @ token (given (options st))))]\<rparr>"

definition resume :: "Shard \<Rightarrow> error + Shard" where
  "resume st = send True (resume_message st) st"

definition heartbeat_message :: "Shard \<Rightarrow> message" where
  "heartbeat_message st =
     \<lparr>msg_op = Op_Heartbeat,
      msg_d = (case resume_seq (data st) of None \<Rightarrow> JNull | Some n \<Rightarrow> JNum n)\<rparr>"

definition heartbeat :: "bool \<Rightarrow> Shard \<Rightarrow> Shard" where
  "heartbeat requested st0 =
     (let st = logger Debug
                 (tag st0 @ [T '' Sending '', T (if requested then [] else ''un''),
                    T ''requested heartbeat (Ack='', B (ack (heart st0)), T '')'']) st0
      in
      if \<not> requested \<and> \<not> ack (heart st) then
        close ZombiedConnection ''Zombied connection'' st
      else
        (let st1 = (if \<not> requested then st\<lparr>heart := (heart st)\<lparr>ack := False\<rparr>\<rparr> else st);
             st2 = st1\<lparr>heart := (heart st1)\<lparr>lastBeat := Some (now st1)\<rparr>\<rparr>
         in ws_send (heartbeat_message st2) st2))"

definition disconnect :: "Shard \<Rightarrow> Shard" where
  "disconnect st =
     close Shutdown ''Shard down request'' (logger Inform (tag st @ [T '' Disconnecting'']) st)"

definition reconnect :: "Shard \<Rightarrow> Shard" where
  "reconnect st = connect (disconnect (logger Inform (tag st @ [T '' Reconnecting'']) st))"

text \<open>
  \<open>this.offlineSendQueue.map((resolve) => resolve())\<close>: the resolvers are called in
  the order of the array, which is left as it is. Calling the resolver of a promise
  that is settled does nothing; the others let their \<open>send\<close> go on, in that order
  (\<open>released\<close>). Afterwards the promises of the array are all settled.
\<close>

fun released :: "nat list \<Rightarrow> (nat \<times> suspended) list \<Rightarrow> suspended list" where
  "released [] pend = []"
| "released (r # rs) pend =
     (case map_of pend r of
        None \<Rightarrow> released rs pend
      | Some k \<Rightarrow> k # released rs (filter (\<lambda>(i, w). i \<noteq> r) pend))"

definition unsettled :: "nat list \<Rightarrow> (nat \<times> suspended) list \<Rightarrow> (nat \<times> suspended) list" where
  "unsettled q pend = filter (\<lambda>(i, w). i \<notin> set q) pend"

text \<open>
  The released sends go on one after the other once the handler that released them has
  returned. One released behind its first \<open>await\<close> passes the bucket and awaits
  \<open>checkOffline\<close> again, which puts its write behind the steps of the others (the
  returned list) or, with the socket not open, back on the queue; one released behind
  its second \<open>await\<close> writes at once.
\<close>

fun resume_sends :: "suspended list \<Rightarrow> Shard \<Rightarrow> message list \<times> Shard" where
  "resume_sends [] st = ([], st)"
| "resume_sends (AwaitFirst force m # ks) st =
     (let st1 = emit (BucketProcess force) st in
      case checkOffline force (AwaitSecond m) st1 of
        Some waiting \<Rightarrow> resume_sends ks waiting
      | None \<Rightarrow> (case resume_sends ks st1 of (ms, st2) \<Rightarrow> (m # ms, st2)))"
| "resume_sends (AwaitSecond m # ks) st = resume_sends ks (ws_send m st)"

definition run_released :: "suspended list \<Rightarrow> Shard \<Rightarrow> Shard" where
  "run_released ks st = (case resume_sends ks st of (ms, st1) \<Rightarrow> fold ws_send ms st1)"

text \<open>The two statements of the cases \<open>Resumed\<close> and \<open>Ready\<close>, and what they set off.\<close>

definition flush_and_forward :: "packet \<Rightarrow> Shard \<Rightarrow> Shard" where
  "flush_and_forward p st =
     run_released (released (offlineSendQueue st) (pending st))
       (emit (HandlePayload (shard_id st) p)
          (st\<lparr>pending := unsettled (offlineSendQueue st) (pending st)\<rparr>))"

definition packet_name :: "packet \<Rightarrow> string" where
  "packet_name p =
     (case pkt_body p of
        Hello hb \<Rightarrow> ''Hello''
      | HeartbeatAck \<Rightarrow> ''HeartbeatAck''
      | Heartbeat \<Rightarrow> ''Heartbeat''
      | Reconnect \<Rightarrow> ''Reconnect''
      | InvalidSession b \<Rightarrow> ''InvalidSession''
      | Dispatch (Ready u sid) \<Rightarrow> ''READY''
      | Dispatch Resumed \<Rightarrow> ''RESUMED''
      | Dispatch (OtherEvent t) \<Rightarrow> (if t = [] then ''Dispatch'' else t)
      | OtherOp n \<Rightarrow> opcode_name n)"

definition seq_part :: "int option \<Rightarrow> part" where
  "seq_part q = (case q of None \<Rightarrow> T ''null'' | Some n \<Rightarrow> N n)"

text \<open>
  The result of an \<open>async\<close> method whose last step may be a \<open>send\<close> that throws: the
  state reached, and the error the returned promise is rejected with, if any.
\<close>

definition settle :: "error + Shard \<Rightarrow> Shard \<Rightarrow> Shard \<times> error option" where
  "settle res st = (case res of Inl e \<Rightarrow> (st, Some e) | Inr st1 \<Rightarrow> (st1, None))"

definition onpacket :: "packet \<Rightarrow> Shard \<Rightarrow> Shard \<times> error option" where
  "onpacket p st0 =
     (let st1 = (case pkt_s p of
                   None \<Rightarrow> st0
                 | Some n \<Rightarrow> st0\<lparr>data := (data st0)\<lparr>resume_seq := Some n\<rparr>\<rparr>);
          st = logger Debug [T (packet_name p), seq_part (resume_seq (data st1))] st1
      in
      case pkt_body p of
        Hello hb \<Rightarrow>
          (let a = clearInterval (nodeInterval (heart st)) st;
               b = a\<lparr>heart := (heart a)\<lparr>interval := hb\<rparr>\<rparr>;
               c = heartbeat False b;
               e = setInterval (interval (heart c)) c
           in if resumable e then settle (resume e) e else settle (identify e) e)
      | HeartbeatAck \<Rightarrow>
          (st\<lparr>heart := (heart st)\<lparr>ack := True, lastAck := Some (now st)\<rparr>\<rparr>, None)
      | Heartbeat \<Rightarrow> (heartbeat True st, None)
      | Reconnect \<Rightarrow> (reconnect st, None)
      | InvalidSession b \<Rightarrow>
          (if b then
             (if \<not> resumable st then
                (logger Throw [T ''This is a completely unexpected error message.''] st, None)
              else settle (resume st) st)
           else
             (let a = st\<lparr>data := (data st)\<lparr>resume_seq := Some 0\<rparr>\<rparr>;
                  c = a\<lparr>data := (data a)\<lparr>session_id := None\<rparr>\<rparr>
              in settle (identify c) c))
      | Dispatch ev \<Rightarrow>
          (case ev of
             Resumed \<Rightarrow> (flush_and_forward p st, None)
           | Ready u sid \<Rightarrow>
               (let a = st\<lparr>data := (data st)\<lparr>resume_gateway_url := Some u\<rparr>\<rparr>;
                    c = a\<lparr>data := (data a)\<lparr>session_id := Some sid\<rparr>\<rparr>
                in (flush_and_forward p c, None))
           | OtherEvent t \<Rightarrow> (emit (HandlePayload (shard_id st) p) st, None))
      | OtherOp n \<Rightarrow> (st, None))"

text \<open>
  The Hello case of \<open>onpacket\<close> in its two halves. \<open>onpacket\<close> is an async method
  that no caller awaits (\<open>handleMessage\<close> returns its promise to the socket), and its
  Hello case waits at \<open>await this.heartbeat(false)\<close>. \<open>hello_begin\<close> is the handler up
  to that point: the sequence number, the log line, \<open>clearInterval\<close>, the new interval
  and the body of \<open>heartbeat(false)\<close>, which has run when the call returns its promise.
  \<open>hello_resume\<close> is the rest, run when the handler is resumed: \<open>setInterval\<close> with
  the interval stored at that time, then \<open>resume\<close> or \<open>identify\<close>. A handler started in
  between runs between the two.
\<close>

definition hello_begin :: "int option \<Rightarrow> real \<Rightarrow> Shard \<Rightarrow> Shard" where
  "hello_begin q hb st0 =
     (let p = \<lparr>pkt_s = q, pkt_body = Hello hb\<rparr>;
          st1 = (case pkt_s p of
                   None \<Rightarrow> st0
                 | Some n \<Rightarrow> st0\<lparr>data := (data st0)\<lparr>resume_seq := Some n\<rparr>\<rparr>);
          st = logger Debug [T (packet_name p), seq_part (resume_seq (data st1))] st1;
          a = clearInterval (nodeInterval (heart st)) st;
          b = a\<lparr>heart := (heart a)\<lparr>interval := hb\<rparr>\<rparr>
      in heartbeat False b)"

definition hello_resume :: "Shard \<Rightarrow> Shard \<times> error option" where
  "hello_resume c =
     (let e = setInterval (interval (heart c)) c
      in if resumable e then settle (resume e) e else settle (identify e) e)"

text \<open>
  \<open>ShardSocketCloseCodes[code] ?? GatewayCloseCodes[code] ?? code\<close>, for the line
  \<open>handleClosed\<close> logs.
\<close>

definition close_code_part :: "int \<Rightarrow> part" where
  "close_code_part code =
     (if code = Shutdown then T ''Shutdown''
      else if code = ZombiedConnection then T ''ZombiedConnection''
      else if code = UnknownError then T ''UnknownError''
      else if code = UnknownOpcode then T ''UnknownOpcode''
      else if code = DecodeError then T ''DecodeError''
      else if code = NotAuthenticated then T ''NotAuthenticated''
      else if code = AuthenticationFailed then T ''AuthenticationFailed''
      else if code = AlreadyAuthenticated then T ''AlreadyAuthenticated''
      else if code = InvalidSeq then T ''InvalidSeq''
      else if code = RateLimited then T ''RateLimited''
      else if code = SessionTimedOut then T ''SessionTimedOut''
      else if code = InvalidShard then T ''InvalidShard''
      else if code = ShardingRequired then T ''ShardingRequired''
      else if code = InvalidAPIVersion then T ''InvalidAPIVersion''
      else if code = InvalidIntents then T ''InvalidIntents''
      else if code = DisallowedIntents then T ''DisallowedIntents''
      else N code)"

text \<open>The four classes of the \<open>switch\<close> of \<open>handleClosed\<close>, in its order.\<close>

definition resumable_loss :: "int \<Rightarrow> bool" where
  "resumable_loss code =
     (code = 1000 \<or> code = UnknownOpcode \<or> code = InvalidSeq \<or> code = SessionTimedOut)"

definition transient :: "int \<Rightarrow> bool" where
  "transient code =
     (code = 1001 \<or> code = 1006 \<or> code = ZombiedConnection \<or> code = UnknownError
      \<or> code = DecodeError \<or> code = NotAuthenticated \<or> code = AlreadyAuthenticated
      \<or> code = RateLimited)"

definition fatal :: "int \<Rightarrow> bool" where
  "fatal code =
     (code = AuthenticationFailed \<or> code = DisallowedIntents \<or> code = InvalidAPIVersion
      \<or> code = InvalidIntents \<or> code = InvalidShard \<or> code = ShardingRequired)"

definition handleClosed :: "int \<Rightarrow> string \<Rightarrow> Shard \<Rightarrow> Shard" where
  "handleClosed code reason st0 =
     (let st1 = clearInterval (nodeInterval (heart st0)) st0;
          st = logger Warn [close_code_part code, T '' ('', N code, T '')'', T reason] st1
      in
      if code = Shutdown then st
      else if resumable_loss code then
        (let a = st\<lparr>data := (data st)\<lparr>resume_seq := Some 0\<rparr>\<rparr>;
             b = a\<lparr>data := (data a)\<lparr>session_id := None\<rparr>\<rparr>;
             c = b\<lparr>data := (data b)\<lparr>resume_gateway_url := None\<rparr>\<rparr>
         in reconnect c)
      else if transient code then reconnect (logger Inform [T ''Trying to reconnect''] st)
      else if fatal code then logger Throw [T ''Cannot reconnect''] st
      else reconnect (logger Warn [T ''Unknown close code, trying to reconnect anyways''] st))"

text \<open>
  \<open>handleMessage\<close>: inflating and parsing are the runtime's; the argument is the
  packet they give, or the text of what they throw.
\<close>

definition handleMessage :: "string + packet \<Rightarrow> Shard \<Rightarrow> Shard \<times> error option" where
  "handleMessage parsed st =
     (case parsed of
        Inl e \<Rightarrow> (logger Throw [T e] st, None)
      | Inr p \<Rightarrow> onpacket p st)"

subsection \<open>Events\<close>

text \<open>
  What can happen to a shard: a call of one of its public methods, one of the four
  handlers \<open>connect\<close> installs on the socket being run, the socket changing its
  \<open>readyState\<close>, an armed timer firing, time passing. \<open>step\<close> runs the method or
  handler of an event from its start to its end.
\<close>

datatype action =
    CallConnect
  | CallSend bool message
  | CallIdentify
  | CallResume
  | CallHeartbeat bool
  | CallDisconnect
  | CallReconnect
  | CallOnpacket packet
  | CallClose int string
  | OnMessage "string + packet"
  | OnClose int string
  | OnError string
  | OnOpen
  | ReadyState nat
  | TimerFires nat
  | ClockTick nat

definition dropping :: "error + Shard \<Rightarrow> Shard \<Rightarrow> Shard" where
  "dropping res st = (case res of Inl e \<Rightarrow> st | Inr st1 \<Rightarrow> st1)"

fun step :: "action \<Rightarrow> Shard \<Rightarrow> Shard" where
  "step CallConnect st = connect st"
| "step (CallSend force m) st = dropping (send force m st) st"
| "step CallIdentify st = dropping (identify st) st"
| "step CallResume st = dropping (resume st) st"
| "step (CallHeartbeat requested) st = heartbeat requested st"
| "step CallDisconnect st = disconnect st"
| "step CallReconnect st = reconnect st"
| "step (CallOnpacket p) st = fst (onpacket p st)"
| "step (CallClose code reason) st = close code reason st"
| "step (OnMessage parsed) st = fst (handleMessage parsed st)"
| "step (OnClose code reason) st = handleClosed code reason st"
| "step (OnError e) st = logger Throw [T e] st"
| "step OnOpen st = st\<lparr>heart := (heart st)\<lparr>ack := True\<rparr>\<rparr>"
| "step (ReadyState r) st =
     st\<lparr>websocket := (case websocket st of None \<Rightarrow> None | Some q \<Rightarrow> Some r)\<rparr>"
| "step (TimerFires h) st =
     (if h \<in> set (map fst (timers st)) then heartbeat False st else st)"
| "step (ClockTick n) st = st\<lparr>now := now st + n\<rparr>"

subsection \<open>Reading a trace\<close>

text \<open>The frames written to the socket, and the codes the socket was closed with.\<close>

definition sent :: "event list \<Rightarrow> message list" where
  "sent tr = concat (map (\<lambda>e. case e of WsSend m \<Rightarrow> [m] | _ \<Rightarrow> []) tr)"

definition closes :: "event list \<Rightarrow> (int \<times> string) list" where
  "closes tr = concat (map (\<lambda>e. case e of WsClose c r \<Rightarrow> [(c, r)] | _ \<Rightarrow> []) tr)"

text \<open>Options for the examples: no logger, the defaults for the rest.\<close>

definition demo_options :: ShardOptions where
  "demo_options =
     \<lparr>token = ''abc.defg.hi'', info_url = ''wss://gateway.discord.gg'', info_shards = 1,
      intents = 513, compress = False, presence = None, debug = False,
      properties = None, ratelimitOptions = None\<rparr>"

text \<open>A shard whose socket has been created by \<open>connect\<close> and has opened.\<close>

definition open_shard :: "ShardOptions \<Rightarrow> Shard" where
  "open_shard opts = step OnOpen (step (ReadyState 1) (connect (Shard_new ''linux'' 0 opts)))"

subsection \<open>Stating the redaction\<close>

text \<open>
  The string \<open>replaceAll\<close> gives for a value when the replacer does not throw (the
  value itself otherwise), and a JSON value with a function applied to every string
  value in it.
\<close>

definition redacted :: "string \<Rightarrow> string \<Rightarrow> string" where
  "redacted tok v = (case replaceAll v tok mask of Inl e \<Rightarrow> v | Inr w \<Rightarrow> w)"

fun map_strings :: "(string \<Rightarrow> string) \<Rightarrow> json \<Rightarrow> json" where
  "map_strings f JNull = JNull"
| "map_strings f (JBool b) = JBool b"
| "map_strings f (JNum n) = JNum n"
| "map_strings f (JStr v) = JStr (f v)"
| "map_strings f (JArr xs) = JArr (map (map_strings f) xs)"
| "map_strings f (JObj fs) = JObj (map (\<lambda>kv. (fst kv, map_strings f (snd kv))) fs)"

text \<open>
  A text cut at occurrences of a token: \<open>join tok pieces\<close> puts the token between the
  pieces, and \<open>separated tok pieces\<close> says that no occurrence of the token starts
  inside a piece, so that the occurrences found from left to right are the ones
  between the pieces. \<open>masked\<close> is the text the claim gives for the replacement.
\<close>

fun join :: "string \<Rightarrow> string list \<Rightarrow> string" where
  "join sep [] = []"
| "join sep [p] = p"
| "join sep (p # q # ps) = p @ sep @ join sep (q # ps)"

fun separated :: "string \<Rightarrow> string list \<Rightarrow> bool" where
  "separated tok [] = False"
| "separated tok [p] = (\<not> sublist tok p)"
| "separated tok (p # q # ps) = (\<not> sublist tok (p @ butlast tok) \<and> separated tok (q # ps))"

definition masked :: "string \<Rightarrow> string \<Rightarrow> string \<Rightarrow> string" where
  "masked s0 s1 s2 = s0 @ ''.'' @ stars (length s1) @ ''.'' @ stars (length s2)"

subsection \<open>Stating the order of the offline queue\<close>


text \<open>
  The log line of \<open>send\<close> can be computed: there is no logger, or the token has at
  least three segments.
\<close>

definition log_safe :: "Shard \<Rightarrow> bool" where
  "log_safe st = (has_logger st \<longrightarrow> 3 \<le> length (split_dot (token (given (options st)))))"





subsection \<open>Stating the timer invariant\<close>

text \<open>
  At most one interval timer is armed, and it is the one whose handle is stored in
  \<open>heart.nodeInterval\<close>, so that \<open>clearInterval(this.heart.nodeInterval)\<close> cancels it.
  This is what the claim C7 asks of every state.
\<close>

definition one_timer :: "Shard \<Rightarrow> bool" where
  "one_timer st =
     (length (timers st) \<le> 1
      \<and> list_all (\<lambda>(h, p). nodeInterval (heart st) = Some h) (timers st))"

text \<open>A call that arms and cancels nothing and leaves the stored handle alone.\<close>

definition keeps_timers :: "Shard \<Rightarrow> Shard \<Rightarrow> bool" where
  "keeps_timers st st' =
     (timers st' = timers st \<and> next_timer st' = next_timer st
      \<and> nodeInterval (heart st') = nodeInterval (heart st))"

section \<open>Properties\<close>

lemmas close_code_defs =
  Shutdown_def ZombiedConnection_def UnknownError_def UnknownOpcode_def DecodeError_def
  NotAuthenticated_def AuthenticationFailed_def AlreadyAuthenticated_def InvalidSeq_def
  RateLimited_def SessionTimedOut_def InvalidShard_def ShardingRequired_def
  InvalidAPIVersion_def InvalidIntents_def DisallowedIntents_def

subsection \<open>What the small steps change\<close>

lemma emit_fields [simp]:
  "shard_id (emit e st) = shard_id st"
  "options (emit e st) = options st"
  "data (emit e st) = data st"
  "heart (emit e st) = heart st"
  "websocket (emit e st) = websocket st"
  "bucket (emit e st) = bucket st"
  "offlineSendQueue (emit e st) = offlineSendQueue st"
  "pending (emit e st) = pending st"
  "next_promise (emit e st) = next_promise st"
  "timers (emit e st) = timers st"
  "next_timer (emit e st) = next_timer st"
  "now (emit e st) = now st"
  "trace (emit e st) = trace st @ [e]"
  by (simp_all add: emit_def)

lemma has_logger_cong [simp]:
  "has_logger (st\<lparr>trace := tr\<rparr>) = has_logger st"
  "has_logger (st\<lparr>data := dt\<rparr>) = has_logger st"
  "has_logger (st\<lparr>heart := ht\<rparr>) = has_logger st"
  "has_logger (st\<lparr>websocket := ws\<rparr>) = has_logger st"
  "has_logger (st\<lparr>pending := pd\<rparr>) = has_logger st"
  "has_logger (st\<lparr>now := tm\<rparr>) = has_logger st"
  by (simp_all add: has_logger_def)

lemma logger_fields [simp]:
  "shard_id (logger lv ps st) = shard_id st"
  "options (logger lv ps st) = options st"
  "data (logger lv ps st) = data st"
  "heart (logger lv ps st) = heart st"
  "websocket (logger lv ps st) = websocket st"
  "bucket (logger lv ps st) = bucket st"
  "offlineSendQueue (logger lv ps st) = offlineSendQueue st"
  "pending (logger lv ps st) = pending st"
  "next_promise (logger lv ps st) = next_promise st"
  "timers (logger lv ps st) = timers st"
  "next_timer (logger lv ps st) = next_timer st"
  "now (logger lv ps st) = now st"
  "trace (logger lv ps st) = trace st @ (if has_logger st then [Log lv ps] else [])"
  by (simp_all add: logger_def)

lemma clearInterval_fields [simp]:
  "shard_id (clearInterval h st) = shard_id st"
  "options (clearInterval h st) = options st"
  "data (clearInterval h st) = data st"
  "heart (clearInterval h st) = heart st"
  "websocket (clearInterval h st) = websocket st"
  "bucket (clearInterval h st) = bucket st"
  "offlineSendQueue (clearInterval h st) = offlineSendQueue st"
  "pending (clearInterval h st) = pending st"
  "next_promise (clearInterval h st) = next_promise st"
  "timers (clearInterval h st) = filter (\<lambda>(k, p). Some k \<noteq> h) (timers st)"
  "next_timer (clearInterval h st) = next_timer st"
  "now (clearInterval h st) = now st"
  "trace (clearInterval h st) = trace st"
  by (simp_all add: clearInterval_def)

lemma setInterval_fields [simp]:
  "shard_id (setInterval period st) = shard_id st"
  "options (setInterval period st) = options st"
  "data (setInterval period st) = data st"
  "heart (setInterval period st) = (heart st)\<lparr>nodeInterval := Some (next_timer st)\<rparr>"
  "websocket (setInterval period st) = websocket st"
  "bucket (setInterval period st) = bucket st"
  "offlineSendQueue (setInterval period st) = offlineSendQueue st"
  "pending (setInterval period st) = pending st"
  "next_promise (setInterval period st) = next_promise st"
  "timers (setInterval period st) = timers st @ [(next_timer st, period)]"
  "next_timer (setInterval period st) = Suc (next_timer st)"
  "now (setInterval period st) = now st"
  "trace (setInterval period st) = trace st"
  by (simp_all add: setInterval_def)

lemma ws_send_fields [simp]:
  "shard_id (ws_send m st) = shard_id st"
  "options (ws_send m st) = options st"
  "data (ws_send m st) = data st"
  "heart (ws_send m st) = heart st"
  "websocket (ws_send m st) = websocket st"
  "bucket (ws_send m st) = bucket st"
  "offlineSendQueue (ws_send m st) = offlineSendQueue st"
  "pending (ws_send m st) = pending st"
  "next_promise (ws_send m st) = next_promise st"
  "timers (ws_send m st) = timers st"
  "next_timer (ws_send m st) = next_timer st"
  "now (ws_send m st) = now st"
  "trace (ws_send m st) = trace st @ (if websocket st = None then [] else [WsSend m])"
  by (simp_all add: ws_send_def split: option.splits)

lemma ws_close_fields [simp]:
  "shard_id (ws_close code reason st) = shard_id st"
  "options (ws_close code reason st) = options st"
  "data (ws_close code reason st) = data st"
  "heart (ws_close code reason st) = heart st"
  "websocket (ws_close code reason st) = (if websocket st = None then None else Some 2)"
  "bucket (ws_close code reason st) = bucket st"
  "offlineSendQueue (ws_close code reason st) = offlineSendQueue st"
  "pending (ws_close code reason st) = pending st"
  "next_promise (ws_close code reason st) = next_promise st"
  "timers (ws_close code reason st) = timers st"
  "next_timer (ws_close code reason st) = next_timer st"
  "now (ws_close code reason st) = now st"
  "trace (ws_close code reason st) = trace st @ (if websocket st = None then [] else [WsClose code reason])"
  by (simp_all add: ws_close_def split: option.splits)

lemma has_logger_steps [simp]:
  "has_logger (emit e st) = has_logger st"
  "has_logger (logger lv ps st) = has_logger st"
  "has_logger (clearInterval h st) = has_logger st"
  "has_logger (setInterval period st) = has_logger st"
  "has_logger (ws_send m st) = has_logger st"
  "has_logger (ws_close code reason st) = has_logger st"
  by (simp_all add: has_logger_def)

lemma tag_steps [simp]:
  "tag (emit e st) = tag st"
  "tag (logger lv ps st) = tag st"
  "tag (clearInterval h st) = tag st"
  "tag (setInterval period st) = tag st"
  "tag (ws_send m st) = tag st"
  "tag (ws_close code reason st) = tag st"
  by (simp_all add: tag_def)

lemma isOpen_steps [simp]:
  "isOpen (emit e st) = isOpen st"
  "isOpen (logger lv ps st) = isOpen st"
  "isOpen (clearInterval h st) = isOpen st"
  "isOpen (setInterval period st) = isOpen st"
  "isOpen (ws_send m st) = isOpen st"
  by (simp_all add: isOpen_def)

lemma currentGatewayURL_steps [simp]:
  "currentGatewayURL (emit e st) = currentGatewayURL st"
  "currentGatewayURL (logger lv ps st) = currentGatewayURL st"
  "currentGatewayURL (clearInterval h st) = currentGatewayURL st"
  by (simp_all add: currentGatewayURL_def split: option.splits)

lemma sent_append [simp]: "sent (xs @ ys) = sent xs @ sent ys"
  by (simp add: sent_def)

lemma closes_append [simp]: "closes (xs @ ys) = closes xs @ closes ys"
  by (simp add: closes_def)

lemma sent_Cons [simp]:
  "sent [] = []"
  "sent (WsSend m # tr) = m # sent tr"
  "sent (Log lv ps # tr) = sent tr"
  "sent (WsClose code reason # tr) = sent tr"
  "sent (GateWait # tr) = sent tr"
  "sent (WsNew u # tr) = sent tr"
  "sent (BucketProcess force # tr) = sent tr"
  "sent (HandlePayload i p # tr) = sent tr"
  by (simp_all add: sent_def)

lemma closes_Cons [simp]:
  "closes [] = []"
  "closes (WsSend m # tr) = closes tr"
  "closes (Log lv ps # tr) = closes tr"
  "closes (WsClose code reason # tr) = (code, reason) # closes tr"
  "closes (GateWait # tr) = closes tr"
  "closes (WsNew u # tr) = closes tr"
  "closes (BucketProcess force # tr) = closes tr"
  "closes (HandlePayload i p # tr) = closes tr"
  by (simp_all add: closes_def)

lemma close_fields [simp]:
  "shard_id (close code reason st) = shard_id st"
  "options (close code reason st) = options st"
  "data (close code reason st) = data st"
  "heart (close code reason st) = heart st"
  "websocket (close code reason st) = (if isOpen st then Some 2 else websocket st)"
  "bucket (close code reason st) = bucket st"
  "offlineSendQueue (close code reason st) = offlineSendQueue st"
  "pending (close code reason st) = pending st"
  "next_promise (close code reason st) = next_promise st"
  "timers (close code reason st) = filter (\<lambda>(k, p). Some k \<noteq> nodeInterval (heart st)) (timers st)"
  "next_timer (close code reason st) = next_timer st"
  "now (close code reason st) = now st"
  "trace (close code reason st) = trace st @
       (if isOpen st
        then (if has_logger st
              then [Log Debug (tag st @ [T '' Called close with reason:'', T reason])]
              else []) @ [WsClose code reason]
        else (if has_logger st
              then [Log Warn (tag st @ [T '' Is not open, reason:'', T reason])]
              else []))"
  by (simp_all add: close_def Let_def isOpen_def)

lemma connect_fields [simp]:
  "shard_id (connect st) = shard_id st"
  "options (connect st) = options st"
  "data (connect st) = data st"
  "heart (connect st) = heart st"
  "websocket (connect st) = (if isOpen st then websocket st else Some 0)"
  "bucket (connect st) = bucket st"
  "offlineSendQueue (connect st) = offlineSendQueue st"
  "pending (connect st) = pending st"
  "next_promise (connect st) = next_promise st"
  "timers (connect st) = (if isOpen st then timers st
      else filter (\<lambda>(k, p). Some k \<noteq> nodeInterval (heart st)) (timers st))"
  "next_timer (connect st) = next_timer st"
  "now (connect st) = now st"
  "trace (connect st) = trace st @ [GateWait] @
       (if isOpen st
        then (if has_logger st
              then [Log Debug (tag st @ [T '' Attempted to connect while open''])]
              else [])
        else (if has_logger st
              then [Log Debug (tag st @ [T '' Connecting to '', T (currentGatewayURL st)])]
              else []) @ [WsNew (currentGatewayURL st)])"
  by (simp_all add: connect_def Let_def)

lemma isOpen_close [simp]: "\<not> isOpen (close code reason st)"
  by (simp add: isOpen_def)

lemma has_logger_close [simp]: "has_logger (close code reason st) = has_logger st"
  by (simp add: has_logger_def)

lemma tag_close [simp]: "tag (close code reason st) = tag st"
  by (simp add: tag_def)

lemma disconnect_fields [simp]:
  "shard_id (disconnect st) = shard_id st"
  "options (disconnect st) = options st"
  "data (disconnect st) = data st"
  "heart (disconnect st) = heart st"
  "bucket (disconnect st) = bucket st"
  "offlineSendQueue (disconnect st) = offlineSendQueue st"
  "pending (disconnect st) = pending st"
  "next_promise (disconnect st) = next_promise st"
  "next_timer (disconnect st) = next_timer st"
  "now (disconnect st) = now st"
  "timers (disconnect st) = filter (\<lambda>(k, p). Some k \<noteq> nodeInterval (heart st)) (timers st)"
  "\<not> isOpen (disconnect st)"
  by (simp_all add: disconnect_def)

lemma reconnect_fields [simp]:
  "shard_id (reconnect st) = shard_id st"
  "options (reconnect st) = options st"
  "data (reconnect st) = data st"
  "heart (reconnect st) = heart st"
  "bucket (reconnect st) = bucket st"
  "offlineSendQueue (reconnect st) = offlineSendQueue st"
  "pending (reconnect st) = pending st"
  "next_promise (reconnect st) = next_promise st"
  "next_timer (reconnect st) = next_timer st"
  "now (reconnect st) = now st"
  "timers (reconnect st) = filter (\<lambda>(k, p). Some k \<noteq> nodeInterval (heart st)) (timers st)"
  "websocket (reconnect st) = Some 0"
  by (simp_all add: reconnect_def)

lemma Shard_new_fields [simp]:
  "shard_id (Shard_new platform i opts) = i"
  "options (Shard_new platform i opts) = required_options platform opts"
  "data (Shard_new platform i opts) =
     \<lparr>resume_seq = None, resume_gateway_url = None, session_id = None\<rparr>"
  "heart (Shard_new platform i opts) = initial_heart"
  "websocket (Shard_new platform i opts) = None"
  "offlineSendQueue (Shard_new platform i opts) = []"
  "pending (Shard_new platform i opts) = []"
  "next_promise (Shard_new platform i opts) = 0"
  "timers (Shard_new platform i opts) = []"
  "next_timer (Shard_new platform i opts) = 0"
  "now (Shard_new platform i opts) = 0"
  "trace (Shard_new platform i opts) = []"
  "has_logger (Shard_new platform i opts) = debug opts"
  "\<not> isOpen (Shard_new platform i opts)"
  by (simp_all add: Shard_new_def has_logger_def required_options_def isOpen_def)

lemma initial_heart_fields [simp]:
  "interval initial_heart = 30000"
  "nodeInterval initial_heart = None"
  "lastAck initial_heart = None"
  "lastBeat initial_heart = None"
  "ack initial_heart"
  by (simp_all add: initial_heart_def)

lemma open_shard_fields [simp]:
  "isOpen (open_shard opts)"
  "websocket (open_shard opts) = Some 1"
  "ack (heart (open_shard opts))"
  "timers (open_shard opts) = []"
  "data (open_shard opts) = \<lparr>resume_seq = None, resume_gateway_url = None, session_id = None\<rparr>"
  "has_logger (open_shard opts) = debug opts"
  "offlineSendQueue (open_shard opts) = []"
  "pending (open_shard opts) = []"
  "sent (trace (open_shard opts)) = []"
  "closes (trace (open_shard opts)) = []"
  by (simp_all add: open_shard_def isOpen_def has_logger_def required_options_def)

lemma resumable_loss_not_Shutdown: "resumable_loss code \<Longrightarrow> code \<noteq> Shutdown"
  by (auto simp: resumable_loss_def close_code_defs)

lemma fatal_only:
  "fatal code \<Longrightarrow> code \<noteq> Shutdown \<and> \<not> resumable_loss code \<and> \<not> transient code"
  by (auto simp: fatal_def resumable_loss_def transient_def close_code_defs)

subsection \<open>The capacity of the bucket\<close>

text \<open>
  C3. For rate-limit options \<open>rl\<close> given by the caller, the number the constructor
  hands to the bucket is
  \<open>max 0 (maxRequestsPerRateLimitTick - ceil (rateLimitResetInterval / interval) * 2)\<close>,
  where \<open>interval\<close> is the heartbeat interval at construction, which is always 30000.
  For 120 requests per 60000 ms, which are also the defaults, it is 116.
\<close>

theorem C3_bucket_capacity:
  "bucket (Shard_new platform i (opts\<lparr>ratelimitOptions := Some rl\<rparr>)) =
     Finite (max 0 (maxRequestsPerRateLimitTick rl
        - of_int \<lceil>rateLimitResetInterval rl
             / interval (heart (Shard_new platform i (opts\<lparr>ratelimitOptions := Some rl\<rparr>)))\<rceil> * 2))
   \<and> interval (heart (Shard_new platform i opts)) = 30000
   \<and> bucket (Shard_new platform i (opts\<lparr>ratelimitOptions :=
        Some \<lparr>maxRequestsPerRateLimitTick = 120, rateLimitResetInterval = 60000\<rparr>\<rparr>)) = Finite 116
   \<and> bucket (Shard_new platform i (opts\<lparr>ratelimitOptions := None\<rparr>)) = Finite 116"
  by (simp add: Shard_new_def calculateSafeRequests_def initial_heart_def required_options_def
      Let_def max_def)

subsection \<open>When a session can be resumed\<close>

text \<open>
  C4, as the code has it. \<open>resumable\<close> is true exactly when the resume URL and the
  session id are set to strings that are not empty and the sequence number is not
  null. The getter tests the two strings for truthiness, so an empty string counts as
  missing.
\<close>

theorem C4_resumable_iff:
  "resumable st =
     (resume_gateway_url (data st) \<notin> {None, Some []}
      \<and> session_id (data st) \<notin> {None, Some []}
      \<and> resume_seq (data st) \<noteq> None)"
  by (auto simp: resumable_def truthy_def split: option.splits)

text \<open>
  C4 as stated fails: after a Ready packet with sequence number 5 that carries an empty
  session id, all three values are set and \<open>resumable\<close> is false.
\<close>

theorem C4_counterexample:
  "(let st = fst (onpacket
                \<lparr>pkt_s = Some 5, pkt_body = Dispatch (Ready ''wss://gateway.discord.gg'' [])\<rparr>
                (Shard_new ''linux'' 0 demo_options))
    in resume_gateway_url (data st) \<noteq> None \<and> session_id (data st) \<noteq> None
       \<and> resume_seq (data st) \<noteq> None \<and> \<not> resumable st)"
  by (simp add: onpacket_def flush_and_forward_def run_released_def resumable_def truthy_def
      Let_def)

subsection \<open>Heartbeats\<close>

lemma heartbeat_requested:
  "heartbeat True st =
     ws_send (heartbeat_message st)
       ((logger Debug (tag st @ [T '' Sending '', T [],
             T ''requested heartbeat (Ack='', B (ack (heart st)), T '')'']) st)
          \<lparr>heart := (heart st)\<lparr>lastBeat := Some (now st)\<rparr>\<rparr>)"
  by (simp add: heartbeat_def Let_def heartbeat_message_def)

lemma heartbeat_unrequested_acked:
  "ack (heart st) \<Longrightarrow>
   heartbeat False st =
     ws_send (heartbeat_message st)
       ((logger Debug (tag st @ [T '' Sending '', T ''un'',
             T ''requested heartbeat (Ack='', B (ack (heart st)), T '')'']) st)
          \<lparr>heart := (heart st)\<lparr>ack := False, lastBeat := Some (now st)\<rparr>\<rparr>)"
  by (simp add: heartbeat_def Let_def heartbeat_message_def)

lemma heartbeat_unrequested_unacked:
  "\<not> ack (heart st) \<Longrightarrow>
   heartbeat False st =
     close ZombiedConnection ''Zombied connection''
         (logger Debug (tag st @ [T '' Sending '', T ''un'',
             T ''requested heartbeat (Ack='', B (ack (heart st)), T '')'']) st)"
  by (simp add: heartbeat_def Let_def)

text \<open>
  C9. A requested heartbeat leaves \<open>heart.ack\<close> as it is. So when the acknowledgement
  is not outstanding before it, the unrequested heartbeat that follows does not close
  the socket; it is that one which marks the acknowledgement as outstanding.
\<close>

theorem C9_requested_heartbeat_keeps_ack:
  "ack (heart (heartbeat True st)) = ack (heart st)
   \<and> (ack (heart st) \<longrightarrow>
        closes (trace (heartbeat False (heartbeat True st))) = closes (trace st)
        \<and> \<not> ack (heart (heartbeat False (heartbeat True st))))"
proof -
  have kept: "ack (heart (heartbeat True st)) = ack (heart st)"
    by (simp add: heartbeat_requested)
  have "closes (trace (heartbeat False (heartbeat True st))) = closes (trace st)
        \<and> \<not> ack (heart (heartbeat False (heartbeat True st)))" if "ack (heart st)"
  proof -
    from that kept have "ack (heart (heartbeat True st))" by simp
    then show ?thesis
      by (simp add: heartbeat_unrequested_acked) (simp add: heartbeat_requested)
  qed
  with kept show ?thesis by blast
qed

theorem C9_witness:
  "ack (heart (Shard_new ''linux'' 0 demo_options))
   \<and> ack (heart (heartbeat True (Shard_new ''linux'' 0 demo_options)))
   \<and> closes (trace (heartbeat False (heartbeat True (Shard_new ''linux'' 0 demo_options)))) = []"
  using C9_requested_heartbeat_keeps_ack [of "Shard_new ''linux'' 0 demo_options"]
  by simp

text \<open>
  C5, as the code has it. With the acknowledgement outstanding, an unrequested
  heartbeat is a call of \<open>close\<close> with the code 3010: no frame is written, the
  heartbeat timer is cancelled, and the socket is closed with 3010 when it is open;
  \<open>close\<close> does not touch a socket that is not open.
\<close>

theorem C5_zombied_heartbeat:
  "\<not> ack (heart st) \<Longrightarrow>
     heartbeat False st =
       close ZombiedConnection ''Zombied connection''
         (logger Debug (tag st @ [T '' Sending '', T ''un'',
             T ''requested heartbeat (Ack='', B (ack (heart st)), T '')'']) st)
     \<and> ZombiedConnection = 3010
     \<and> sent (trace (heartbeat False st)) = sent (trace st)
     \<and> closes (trace (heartbeat False st)) =
         closes (trace st) @ (if isOpen st then [(3010, ''Zombied connection'')] else [])
     \<and> timers (heartbeat False st) =
         filter (\<lambda>(k, p). Some k \<noteq> nodeInterval (heart st)) (timers st)"
  by (simp add: heartbeat_unrequested_unacked) (simp add: ZombiedConnection_def)

theorem C5_witness:
  "\<not> ack (heart (heartbeat False (open_shard demo_options)))
   \<and> closes (trace (heartbeat False (heartbeat False (open_shard demo_options)))) =
       [(3010, ''Zombied connection'')]
   \<and> sent (trace (heartbeat False (heartbeat False (open_shard demo_options)))) =
       [\<lparr>msg_op = 1, msg_d = JNull\<rparr>]"
proof -
  have unacked: "\<not> ack (heart (heartbeat False (open_shard demo_options)))"
    by (simp add: heartbeat_unrequested_acked)
  have opened: "isOpen (heartbeat False (open_shard demo_options))"
    by (simp add: heartbeat_unrequested_acked isOpen_def)
  have before:
    "sent (trace (heartbeat False (open_shard demo_options))) = [\<lparr>msg_op = 1, msg_d = JNull\<rparr>]"
    "closes (trace (heartbeat False (open_shard demo_options))) = []"
    by (simp_all add: heartbeat_unrequested_acked heartbeat_message_def Op_Heartbeat_def)
  from C5_zombied_heartbeat [OF unacked]
  have "sent (trace (heartbeat False (heartbeat False (open_shard demo_options)))) =
          sent (trace (heartbeat False (open_shard demo_options)))"
    and "closes (trace (heartbeat False (heartbeat False (open_shard demo_options)))) =
          closes (trace (heartbeat False (open_shard demo_options))) @
            (if isOpen (heartbeat False (open_shard demo_options))
             then [(3010, ''Zombied connection'')] else [])"
    by blast+
  with unacked opened before show ?thesis
    by simp
qed

text \<open>
  C5 as stated fails where the socket is not open: on a new shard, which has no socket,
  the first unrequested heartbeat leaves the acknowledgement outstanding and the second
  closes nothing.
\<close>

theorem C5_counterexample:
  "\<not> ack (heart (heartbeat False (Shard_new ''linux'' 0 demo_options)))
   \<and> \<not> isOpen (heartbeat False (Shard_new ''linux'' 0 demo_options))
   \<and> closes (trace (heartbeat False (heartbeat False (Shard_new ''linux'' 0 demo_options)))) = []"
proof -
  have unacked: "\<not> ack (heart (heartbeat False (Shard_new ''linux'' 0 demo_options)))"
    by (simp add: heartbeat_unrequested_acked)
  have shut: "\<not> isOpen (heartbeat False (Shard_new ''linux'' 0 demo_options))"
    by (simp add: heartbeat_unrequested_acked isOpen_def)
  have "closes (trace (heartbeat False (heartbeat False (Shard_new ''linux'' 0 demo_options)))) = []"
    using shut by (simp add: heartbeat_unrequested_unacked [OF unacked])
       (simp add: heartbeat_unrequested_acked)
  with unacked shut show ?thesis by simp
qed

subsection \<open>The close handler\<close>

text \<open>
  C2, as the code has it. On a close code of the resumable-loss class the handler sets
  the sequence number to 0 and unsets the session id and the resume URL, and calls
  \<open>reconnect\<close> in that state; the session can then not be resumed.
\<close>

theorem C2_resumable_loss_resets_session:
  "resumable_loss code \<Longrightarrow>
     handleClosed code reason st =
       reconnect
         ((logger Warn [close_code_part code, T '' ('', N code, T '')'', T reason]
             (clearInterval (nodeInterval (heart st)) st))
            \<lparr>data := (data st)\<lparr>resume_seq := Some 0, session_id := None,
                                resume_gateway_url := None\<rparr>\<rparr>)
     \<and> resume_seq (data (handleClosed code reason st)) = Some 0
     \<and> session_id (data (handleClosed code reason st)) = None
     \<and> resume_gateway_url (data (handleClosed code reason st)) = None
     \<and> \<not> resumable (handleClosed code reason st)"
proof -
  assume loss: "resumable_loss code"
  have eq: "handleClosed code reason st =
      reconnect
         ((logger Warn [close_code_part code, T '' ('', N code, T '')'', T reason]
             (clearInterval (nodeInterval (heart st)) st))
            \<lparr>data := (data st)\<lparr>resume_seq := Some 0, session_id := None,
                                resume_gateway_url := None\<rparr>\<rparr>)"
    using loss resumable_loss_not_Shutdown [OF loss]
    by (simp add: handleClosed_def Let_def)
  show ?thesis
    unfolding eq by (simp add: resumable_def truthy_def)
qed

theorem C2_witness:
  "resumable_loss 1000 \<and> resumable_loss UnknownOpcode \<and> resumable_loss InvalidSeq
   \<and> resumable_loss SessionTimedOut
   \<and> resume_seq (data (handleClosed 1000 ''bye'' (Shard_new ''linux'' 0 demo_options))) = Some 0
   \<and> session_id (data (handleClosed 1000 ''bye'' (Shard_new ''linux'' 0 demo_options))) = None"
  using C2_resumable_loss_resets_session [of 1000 "''bye''" "Shard_new ''linux'' 0 demo_options"]
  by (simp add: resumable_loss_def)

text \<open>
  C2 as stated fails for the sequence number: after a normal closure (1000) it is 0,
  not null.
\<close>

theorem C2_counterexample:
  "resumable_loss 1000
   \<and> resume_seq (data (handleClosed 1000 ''bye'' (Shard_new ''linux'' 0 demo_options))) = Some 0
   \<and> resume_seq (data (handleClosed 1000 ''bye'' (Shard_new ''linux'' 0 demo_options))) \<noteq> None"
  by (simp add: resumable_loss_def handleClosed_def Let_def close_code_defs)

text \<open>
  C6, as the code has it. On a close code of the fatal class the handler cancels the
  heartbeat timer and gives two lines to the logger, the second the error
  "Cannot reconnect", when there is a logger (\<open>options.debug\<close>); without one nothing
  is reported. In both cases it does nothing else: no \<open>connect\<close>, no new socket.
\<close>

theorem C6_fatal_close:
  "fatal code \<Longrightarrow>
     handleClosed code reason st =
       logger Throw [T ''Cannot reconnect'']
         (logger Warn [close_code_part code, T '' ('', N code, T '')'', T reason]
            (clearInterval (nodeInterval (heart st)) st))
     \<and> trace (handleClosed code reason st) =
         trace st @
           (if has_logger st
            then [Log Warn [close_code_part code, T '' ('', N code, T '')'', T reason],
                  Log Throw [T ''Cannot reconnect'']]
            else [])
     \<and> websocket (handleClosed code reason st) = websocket st"
proof -
  assume "fatal code"
  with fatal_only [of code] have eq: "handleClosed code reason st =
       logger Throw [T ''Cannot reconnect'']
         (logger Warn [close_code_part code, T '' ('', N code, T '')'', T reason]
            (clearInterval (nodeInterval (heart st)) st))"
    by (simp add: handleClosed_def Let_def)
  show ?thesis
    unfolding eq by simp
qed

theorem C6_witness:
  "fatal AuthenticationFailed \<and> fatal DisallowedIntents \<and> fatal InvalidAPIVersion
   \<and> fatal InvalidIntents \<and> fatal InvalidShard \<and> fatal ShardingRequired
   \<and> trace (handleClosed AuthenticationFailed ''no''
        (Shard_new ''linux'' 0 (demo_options\<lparr>debug := True\<rparr>))) =
       [Log Warn [T ''AuthenticationFailed'', T '' ('', N 4004, T '')'', T ''no''],
        Log Throw [T ''Cannot reconnect'']]"
proof -
  have is_fatal: "fatal AuthenticationFailed"
    by (simp add: fatal_def)
  from C6_fatal_close [OF is_fatal]
  have "trace (handleClosed AuthenticationFailed ''no''
          (Shard_new ''linux'' 0 (demo_options\<lparr>debug := True\<rparr>))) =
        trace (Shard_new ''linux'' 0 (demo_options\<lparr>debug := True\<rparr>)) @
          (if has_logger (Shard_new ''linux'' 0 (demo_options\<lparr>debug := True\<rparr>))
           then [Log Warn [close_code_part AuthenticationFailed, T '' ('',
                   N AuthenticationFailed, T '')'', T ''no''],
                 Log Throw [T ''Cannot reconnect'']]
           else [])"
    by blast
  then have "trace (handleClosed AuthenticationFailed ''no''
          (Shard_new ''linux'' 0 (demo_options\<lparr>debug := True\<rparr>))) =
       [Log Warn [T ''AuthenticationFailed'', T '' ('', N 4004, T '')'', T ''no''],
        Log Throw [T ''Cannot reconnect'']]"
    by (simp add: close_code_part_def close_code_defs)
  then show ?thesis
    by (simp add: fatal_def)
qed

text \<open>
  C6 as stated fails for the report: without a logger, which is the default, a close
  with the code 4004 leaves no trace at all.
\<close>

theorem C6_counterexample:
  "fatal AuthenticationFailed \<and> AuthenticationFailed = 4004 \<and> \<not> debug demo_options
   \<and> trace (handleClosed 4004 ''no'' (Shard_new ''linux'' 0 demo_options)) = []"
proof -
  have "fatal 4004" by (simp add: fatal_def close_code_defs)
  with fatal_only [of 4004] show ?thesis
    by (simp add: handleClosed_def Let_def demo_options_def AuthenticationFailed_def)
qed

subsection \<open>The token in the log of send\<close>

lemma split_dot_not_Nil [simp]: "split_dot v \<noteq> []"
  by (induction v) (auto split: list.splits)

lemma mask_three: "split_dot tok = [s0, s1, s2] \<Longrightarrow> mask tok = Inr (masked s0 s1 s2)"
  by (simp add: mask_def masked_def)

lemma mask_segments: "3 \<le> length (split_dot tok) \<Longrightarrow> \<exists>m. mask tok = Inr m"
  by (auto simp: mask_def split: list.splits)

lemma mask_Nil [simp]: "mask [] = Inl TypeError"
  by (simp add: mask_def)

lemma replace_scan_total: "\<exists>w. replace_scan pat (Inr m) v = Inr w"
proof (induction pat "Inr m :: error + string" v rule: replace_scan.induct)
  case (1 pat)
  then show ?case by simp
next
  case (2 pat c cs)
  then show ?case by (cases "prefix pat (c # cs)") auto
qed

lemma replaceAll_total:
  assumes "mask tok = Inr m"
  shows "\<exists>w. replaceAll v tok mask = Inr w"
proof -
  from assms have "tok \<noteq> []" by auto
  with assms replace_scan_total [of tok m v] show ?thesis
    by (simp add: replaceAll_def)
qed

lemma replaceAll_redacted:
  "mask tok = Inr m \<Longrightarrow> replaceAll v tok mask = Inr (redacted tok v)"
  using replaceAll_total [of tok m v] by (auto simp: redacted_def)

lemma redact_json_total:
  "mask tok = Inr m \<Longrightarrow> redact_json tok j = Inr (map_strings (redacted tok) j)"
  "mask tok = Inr m \<Longrightarrow> redact_list tok xs = Inr (map (map_strings (redacted tok)) xs)"
  "mask tok = Inr m \<Longrightarrow>
     redact_fields tok fs = Inr (map (\<lambda>kv. (fst kv, map_strings (redacted tok) (snd kv))) fs)"
  by (induction tok j and tok xs and tok fs rule: redact_json_redact_list_redact_fields.induct)
    (simp_all add: replaceAll_redacted)

lemma prefix_sublist_start:
  assumes "prefix tok (c # p @ tok @ rest)"
  shows "sublist tok ((c # p) @ butlast tok)"
proof (cases "tok = []")
  case True
  then show ?thesis by simp
next
  case False
  then have split: "tok = butlast tok @ [last tok]" by simp
  have "c # p @ tok @ rest = ((c # p) @ butlast tok) @ (last tok # rest)"
    using False by simp
  with assms have "prefix tok (((c # p) @ butlast tok) @ (last tok # rest))"
    by simp
  then consider "prefix tok ((c # p) @ butlast tok)"
    | us where "tok = ((c # p) @ butlast tok) @ us"
    unfolding prefix_append by blast
  then have "prefix tok ((c # p) @ butlast tok)"
  proof cases
    case 1
    then show ?thesis .
  next
    case 2
    then have "length tok = length ((c # p) @ butlast tok) + length us"
      by (metis length_append)
    then have "length tok = Suc (length p + (length tok - 1) + length us)"
      by simp
    moreover have "0 < length tok"
      using False by simp
    ultimately have "length us = 0"
      by arith
    then have "us = []" by simp
    with 2 show ?thesis by simp
  qed
  then show ?thesis
    by (rule prefix_imp_sublist)
qed

lemma scan_skips:
  assumes "tok \<noteq> []" and "\<not> sublist tok (p @ butlast tok)"
  shows "replace_scan tok (Inr m) (p @ tok @ rest) =
           (case replace_scan tok (Inr m) (tok @ rest) of Inl e \<Rightarrow> Inl e | Inr w \<Rightarrow> Inr (p @ w))"
  using assms(2)
proof (induction p)
  case Nil
  then show ?case by (simp split: sum.splits)
next
  case (Cons c p)
  from Cons.prems have no_pre: "\<not> prefix tok (c # p @ tok @ rest)"
    using prefix_sublist_start [of tok c p rest] by auto
  from Cons.prems have "\<not> sublist tok (p @ butlast tok)"
    by (simp add: sublist_Cons_right)
  with Cons.IH no_pre show ?case
    by (simp split: sum.splits)
qed

lemma scan_last:
  assumes "tok \<noteq> []" and "\<not> sublist tok p"
  shows "replace_scan tok (Inr m) p = Inr p"
  using assms(2)
proof (induction p)
  case Nil
  then show ?case by simp
next
  case (Cons c p)
  then have "\<not> prefix tok (c # p)" and "\<not> sublist tok p"
    by (auto simp: sublist_Cons_right)
  with Cons.IH show ?case by simp
qed

lemma scan_match:
  assumes "tok \<noteq> []"
  shows "replace_scan tok (Inr m) (tok @ rest) =
           (case replace_scan tok (Inr m) rest of Inl e \<Rightarrow> Inl e | Inr w \<Rightarrow> Inr (m @ w))"
proof -
  from assms obtain c cs where tok: "tok = c # cs" by (cases tok) auto
  show ?thesis
    by (simp add: tok)
qed

lemma scan_join:
  assumes "tok \<noteq> []"
  shows "separated tok pieces \<Longrightarrow> replace_scan tok (Inr m) (join tok pieces) = Inr (join m pieces)"
proof (induction pieces rule: induct_list012)
  case 1
  then show ?case by simp
next
  case (2 p)
  with assms show ?case by (simp add: scan_last)
next
  case (3 p q ps)
  with assms show ?case
    by (simp add: scan_skips scan_match)
qed

lemma redacted_join:
  assumes "split_dot tok = [s0, s1, s2]" and "separated tok pieces"
  shows "redacted tok (join tok pieces) = join (masked s0 s1 s2) pieces"
proof -
  from assms(1) have m: "mask tok = Inr (masked s0 s1 s2)" by (rule mask_three)
  then have "tok \<noteq> []" by auto
  with m scan_join [OF _ assms(2)] show ?thesis
    by (simp add: redacted_def replaceAll_def)
qed

lemma leftmost_occurrence:
  assumes "sublist tok v" and "tok \<noteq> []"
  shows "\<exists>p rest. v = p @ tok @ rest \<and> \<not> sublist tok (p @ butlast tok)"
proof -
  define occurs where "occurs n = (\<exists>p rest. v = p @ tok @ rest \<and> length p = n)" for n
  from assms(1) have "\<exists>n. occurs n"
    by (auto simp: sublist_def occurs_def)
  then have least: "occurs (LEAST n. occurs n)"
    by (rule LeastI_ex)
  then obtain p rest where v: "v = p @ tok @ rest" and len: "length p = (LEAST n. occurs n)"
    by (auto simp: occurs_def)
  have "\<not> sublist tok (p @ butlast tok)"
  proof
    assume "sublist tok (p @ butlast tok)"
    then obtain a b where ab: "p @ butlast tok = a @ tok @ b"
      by (auto simp: sublist_def)
    then have "length (p @ butlast tok) = length (a @ tok @ b)"
      by simp
    with assms(2) have shorter: "length a < length p"
      by (cases tok) (simp_all split: if_splits)
    have "v = (p @ butlast tok) @ (last tok # rest)"
      using v assms(2) by simp
    then have "v = a @ tok @ (b @ last tok # rest)"
      by (simp add: ab)
    then have "occurs (length a)"
      by (auto simp: occurs_def)
    with shorter len show False
      using not_less_Least by metis
  qed
  with v show ?thesis by blast
qed

lemma pieces_exist:
  assumes "tok \<noteq> []"
  shows "\<exists>pieces. separated tok pieces \<and> join tok pieces = v"
proof (induction v rule: length_induct)
  case (1 v)
  show ?case
  proof (cases "sublist tok v")
    case False
    then have "separated tok [v] \<and> join tok [v] = v" by simp
    then show ?thesis by blast
  next
    case True
    from leftmost_occurrence [OF True assms] obtain p rest
      where v: "v = p @ tok @ rest" and first: "\<not> sublist tok (p @ butlast tok)"
      by blast
    from v assms have "length rest < length v" by simp
    with 1 obtain pieces where sep: "separated tok pieces" and joined: "join tok pieces = rest"
      by blast
    from sep obtain q qs where pieces: "pieces = q # qs"
      by (cases pieces) auto
    from first sep joined have "separated tok (p # pieces) \<and> join tok (p # pieces) = v"
      by (simp add: pieces v)
    then show ?thesis by blast
  qed
qed

lemma send_log_redacts:
  assumes "mask (token (given (options st))) = Inr w" and "has_logger st"
  shows "send_log m st =
     Inr (emit (Log Inform (tag st @ [T '' Sending: '', T (opcode_name (msg_op m)), T '' '',
            J (map_strings (redacted (token (given (options st)))) (msg_d m))])) st)"
  using assms by (simp add: send_log_def redact_json_total)

text \<open>
  C8, as the code has it. Let the token have three segments \<open>s0.s1.s2\<close> and let
  there be a logger. The line \<open>send\<close> logs carries the message's \<open>d\<close> with every
  string value in it redacted. Every string is pieces with the token between them such
  that no occurrence starts inside a piece, and its redaction is the same pieces with
  \<open>s0\<close>, a dot, as many stars as \<open>s1\<close> is long, a dot and as many stars as \<open>s2\<close> is
  long between them. So two texts that are the same pieces around two tokens with the
  same first segment and the same lengths of the other two are logged as the same text.
\<close>

theorem C8_token_redacted_in_log:
  assumes "split_dot tok = [s0, s1, s2]" and "has_logger st"
    and "token (given (options st)) = tok"
  shows "send_log m st =
           Inr (emit (Log Inform (tag st @ [T '' Sending: '', T (opcode_name (msg_op m)), T '' '',
                  J (map_strings (redacted tok) (msg_d m))])) st)
         \<and> (\<exists>pieces. separated tok pieces \<and> join tok pieces = v)
         \<and> (separated tok pieces \<longrightarrow>
              redacted tok (join tok pieces) = join (masked s0 s1 s2) pieces)
         \<and> (split_dot tok' = [s0, s1', s2'] \<and> length s1' = length s1 \<and> length s2' = length s2
              \<and> separated tok pieces \<and> separated tok' pieces \<longrightarrow>
              redacted tok (join tok pieces) = redacted tok' (join tok' pieces))"
proof -
  from assms(1) have m: "mask tok = Inr (masked s0 s1 s2)"
    by (rule mask_three)
  then have "tok \<noteq> []" by auto
  then have decomposed: "\<exists>pieces. separated tok pieces \<and> join tok pieces = v"
    by (rule pieces_exist)
  have logged: "send_log m st =
           Inr (emit (Log Inform (tag st @ [T '' Sending: '', T (opcode_name (msg_op m)), T '' '',
                  J (map_strings (redacted tok) (msg_d m))])) st)"
    using send_log_redacts [of st _ m] m assms(2,3) by simp
  have same: "redacted tok (join tok pieces) = redacted tok' (join tok' pieces)"
    if "split_dot tok' = [s0, s1', s2']" "length s1' = length s1" "length s2' = length s2"
      "separated tok pieces" "separated tok' pieces"
    using that assms(1) by (simp add: redacted_join masked_def)
  from logged decomposed same show ?thesis
    using assms(1) by (auto simp: redacted_join)
qed

lemma demo_separated: "separated ''abc.defg.hi'' [''Bot '', []]"
  by (simp add: sublist_Cons_right)

lemma demo_separated': "separated ''abc.wxyz.jk'' [''Bot '', []]"
  by (simp add: sublist_Cons_right)

theorem C8_witness:
  "split_dot ''abc.defg.hi'' = [''abc'', ''defg'', ''hi'']
   \<and> has_logger (Shard_new ''linux'' 0 (demo_options\<lparr>debug := True\<rparr>))
   \<and> token (given (options (Shard_new ''linux'' 0 (demo_options\<lparr>debug := True\<rparr>)))) = ''abc.defg.hi''
   \<and> separated ''abc.defg.hi'' [''Bot '', []]
   \<and> redacted ''abc.defg.hi'' ''Bot abc.defg.hi'' = ''Bot abc.****.**''
   \<and> redacted ''abc.wxyz.jk'' ''Bot abc.wxyz.jk'' = ''Bot abc.****.**''"
proof -
  have seg: "split_dot ''abc.defg.hi'' = [''abc'', ''defg'', ''hi'']"
    by simp
  have seg': "split_dot ''abc.wxyz.jk'' = [''abc'', ''wxyz'', ''jk'']"
    by simp
  have lens: "length ''wxyz'' = length ''defg''" "length ''jk'' = length ''hi''"
    by simp_all
  have lg: "has_logger (Shard_new ''linux'' 0 (demo_options\<lparr>debug := True\<rparr>))"
    by simp
  have tk: "token (given (options (Shard_new ''linux'' 0 (demo_options\<lparr>debug := True\<rparr>)))) = ''abc.defg.hi''"
    by (simp add: required_options_def demo_options_def)
  from C8_token_redacted_in_log [OF seg lg tk, where pieces = "[''Bot '', []]"
      and tok' = "''abc.wxyz.jk''" and s1' = "''wxyz''" and s2' = "''jk''"]
  have a: "redacted ''abc.defg.hi'' (join ''abc.defg.hi'' [''Bot '', []]) =
             join (masked ''abc'' ''defg'' ''hi'') [''Bot '', []]"
    and b: "redacted ''abc.defg.hi'' (join ''abc.defg.hi'' [''Bot '', []]) =
             redacted ''abc.wxyz.jk'' (join ''abc.wxyz.jk'' [''Bot '', []])"
    using demo_separated demo_separated' seg' lens by blast+
  from a have a': "redacted ''abc.defg.hi'' ''Bot abc.defg.hi'' = ''Bot abc.****.**''"
    by (simp add: masked_def stars_def)
  with b have "redacted ''abc.wxyz.jk'' ''Bot abc.wxyz.jk'' = ''Bot abc.****.**''"
    by simp
  with seg lg tk demo_separated a' show ?thesis
    by blast
qed

text \<open>
  C8 as stated fails in its last part: for one and the same message, whose \<open>d\<close> holds
  the text of the first token, the shard with the first token logs the masked text and
  the shard with the second token, which has the same first segment and the same
  lengths, logs the text as it is.
\<close>

theorem C8_counterexample:
  "split_dot ''abc.defg.hi'' = [''abc'', ''defg'', ''hi'']
   \<and> split_dot ''abc.wxyz.jk'' = [''abc'', ''wxyz'', ''jk'']
   \<and> map_sum id trace
        (send_log \<lparr>msg_op = 3, msg_d = JObj [(''status'', JStr ''abc.defg.hi'')]\<rparr>
           (Shard_new ''linux'' 0 (demo_options\<lparr>debug := True, token := ''abc.defg.hi''\<rparr>))) =
       Inr [Log Inform [T ''[Shard #'', N 0, T '']'', T '' Sending: '', T ''PresenceUpdate'', T '' '',
              J (JObj [(''status'', JStr ''abc.****.**'')])]]
   \<and> map_sum id trace
        (send_log \<lparr>msg_op = 3, msg_d = JObj [(''status'', JStr ''abc.defg.hi'')]\<rparr>
           (Shard_new ''linux'' 0 (demo_options\<lparr>debug := True, token := ''abc.wxyz.jk''\<rparr>))) =
       Inr [Log Inform [T ''[Shard #'', N 0, T '']'', T '' Sending: '', T ''PresenceUpdate'', T '' '',
              J (JObj [(''status'', JStr ''abc.defg.hi'')])]]"
  by (simp add: send_log_def required_options_def replaceAll_def mask_def stars_def tag_def
      opcode_name_def)

subsection \<open>Sending\<close>

lemma open_shard_more [simp]:
  "options (open_shard opts) = required_options ''linux'' opts"
  "shard_id (open_shard opts) = 0"
  "next_promise (open_shard opts) = 0"
  "next_timer (open_shard opts) = 0"
  "heart (open_shard opts) = initial_heart"
  by (simp_all add: open_shard_def initial_heart_def)

lemma given_required_options [simp]: "given (required_options platform opts) = opts"
  by (simp add: required_options_def)

lemma demo_options_fields [simp]:
  "token demo_options = ''abc.defg.hi''"
  "\<not> debug demo_options"
  "info_url demo_options = ''wss://gateway.discord.gg''"
  by (simp_all add: demo_options_def)

lemma send_log_ok:
  assumes "log_safe st"
  shows "\<exists>ps. send_log m st = Inr (logger Inform ps st)"
proof (cases "has_logger st")
  case True
  with assms obtain w where "mask (token (given (options st))) = Inr w"
    using mask_segments by (auto simp: log_safe_def)
  from send_log_redacts [OF this True] True show ?thesis
    by (auto simp: logger_def)
next
  case False
  then show ?thesis by (simp add: send_log_def logger_def)
qed

lemma send_open:
  assumes "isOpen st" and "send_log m st = Inr (logger Inform ps st)"
  shows "send force m st = Inr (ws_send m (emit (BucketProcess force) (logger Inform ps st)))"
  using assms by (simp add: send_def send_rest_def checkOffline_def Let_def)

lemma send_offline:
  assumes "\<not> isOpen st" and "send_log m st = Inr (logger Inform ps st)"
  shows "send force m st =
     Inr ((logger Inform ps st)
            \<lparr>offlineSendQueue :=
               (if force then next_promise st # offlineSendQueue st
                else offlineSendQueue st @ [next_promise st]),
             pending := pending st @ [(next_promise st, AwaitFirst force m)],
             next_promise := Suc (next_promise st)\<rparr>)"
  using assms by (simp add: send_def checkOffline_def)

text \<open>
  C10, as the code has it. \<open>resume\<close> does not look at \<open>resumable\<close>: it hands to
  \<open>send\<close>, forced, the frame with opcode 6 whose \<open>seq\<close> is the stored sequence number,
  or 0 when that is null, and whose \<open>session_id\<close> is the stored session id, or the
  empty string when there is none. Where the log line of \<open>send\<close> can be computed, the
  call does not throw: with the socket open the frame is written; with the socket not
  open it is not written but put at the front of the offline queue.
\<close>

theorem C10_resume_sends_or_queues:
  assumes "has_logger st \<longrightarrow> 3 \<le> length (split_dot (token (given (options st))))"
  shows "resume_message st =
           \<lparr>msg_op = 6,
            msg_d = JObj
              [(''seq'', JNum (case resume_seq (data st) of None \<Rightarrow> 0 | Some n \<Rightarrow> n)),
               (''session_id'', JStr (case session_id (data st) of None \<Rightarrow> [] | Some sid \<Rightarrow> sid)),
               (''token'', JStr (''Bot '' @ token (given (options st))))]\<rparr>
         \<and> (\<exists>st'. resume st = Inr st'
               \<and> (if isOpen st
                   then sent (trace st') = sent (trace st) @ [resume_message st]
                        \<and> offlineSendQueue st' = offlineSendQueue st
                        \<and> pending st' = pending st
                   else sent (trace st') = sent (trace st)
                        \<and> offlineSendQueue st' = next_promise st # offlineSendQueue st
                        \<and> pending st' =
                            pending st @ [(next_promise st, AwaitFirst True (resume_message st))]))"
proof -
  from assms have "log_safe st" by (simp add: log_safe_def)
  then obtain ps where lg: "send_log (resume_message st) st = Inr (logger Inform ps st)"
    using send_log_ok by blast
  show ?thesis
  proof (cases "isOpen st")
    case True
    then have "websocket st \<noteq> None" by (simp add: isOpen_def)
    with True send_open [OF True lg, of True] show ?thesis
      by (simp add: resume_def resume_message_def Op_Resume_def)
  next
    case False
    with send_offline [OF False lg, of True] show ?thesis
      by (simp add: resume_def resume_message_def Op_Resume_def)
  qed
qed

theorem C10_witness:
  "has_logger (open_shard (demo_options\<lparr>debug := True\<rparr>))
   \<and> 3 \<le> length (split_dot (token (given (options (open_shard (demo_options\<lparr>debug := True\<rparr>))))))
   \<and> \<not> resumable (open_shard (demo_options\<lparr>debug := True\<rparr>))
   \<and> (\<exists>st'. resume (open_shard (demo_options\<lparr>debug := True\<rparr>)) = Inr st'
         \<and> sent (trace st') =
             [\<lparr>msg_op = 6,
               msg_d = JObj [(''seq'', JNum 0), (''session_id'', JStr []),
                             (''token'', JStr ''Bot abc.defg.hi'')]\<rparr>])"
proof -
  have tk: "token (given (options (open_shard (demo_options\<lparr>debug := True\<rparr>)))) = ''abc.defg.hi''"
    by simp
  have seg: "3 \<le> length (split_dot (token (given (options (open_shard (demo_options\<lparr>debug := True\<rparr>))))))"
    by simp
  have lg: "has_logger (open_shard (demo_options\<lparr>debug := True\<rparr>))"
    by simp
  have nr: "\<not> resumable (open_shard (demo_options\<lparr>debug := True\<rparr>))"
    by (simp add: resumable_def truthy_def)
  from C10_resume_sends_or_queues [of "open_shard (demo_options\<lparr>debug := True\<rparr>)"] seg
  have "\<exists>st'. resume (open_shard (demo_options\<lparr>debug := True\<rparr>)) = Inr st'
         \<and> sent (trace st') =
             [\<lparr>msg_op = 6,
               msg_d = JObj [(''seq'', JNum 0), (''session_id'', JStr []),
                             (''token'', JStr ''Bot abc.defg.hi'')]\<rparr>]"
    by auto
  with lg seg nr show ?thesis by blast
qed

text \<open>
  C10 as stated fails where the socket is not open: \<open>resume\<close> on a new shard writes no
  frame; the call waits on the offline queue.
\<close>

theorem C10_counterexample:
  "\<not> isOpen (Shard_new ''linux'' 0 demo_options)
   \<and> (case resume (Shard_new ''linux'' 0 demo_options) of
         Inl e \<Rightarrow> False
       | Inr st' \<Rightarrow> sent (trace st') = [] \<and> offlineSendQueue st' = [0])"
  by (simp add: resume_def send_def send_log_def checkOffline_def demo_options_def)

text \<open>
  With a logger and a token of fewer than three segments the replacer of the log line
  throws, and \<open>resume\<close> with it.
\<close>

lemma resume_throws_on_short_token:
  "resume (open_shard (demo_options\<lparr>debug := True, token := ''abc''\<rparr>)) = Inl TypeError"
  by (simp add: resume_def send_def send_log_def resume_message_def
      required_options_def replaceAll_def mask_def)

subsection \<open>The order of the offline queue\<close>

















lemma connecting_shard [simp]:
  "websocket (connect (Shard_new platform i opts)) = Some 0"
  "\<not> isOpen (connect (Shard_new platform i opts))"
  "offlineSendQueue (connect (Shard_new platform i opts)) = []"
  "pending (connect (Shard_new platform i opts)) = []"
  "has_logger (connect (Shard_new platform i opts)) = debug opts"
  "sent (trace (connect (Shard_new platform i opts))) = []"
  by (simp_all add: isOpen_def has_logger_def)



subsection \<open>The heartbeat timer\<close>

lemma keeps_timers_refl [simp]: "keeps_timers st st"
  by (simp add: keeps_timers_def)

lemma keeps_one_timer: "keeps_timers st st' \<Longrightarrow> one_timer st \<Longrightarrow> one_timer st'"
  by (simp add: keeps_timers_def one_timer_def)

lemma one_timer_cleared:
  "one_timer st \<Longrightarrow> filter (\<lambda>(k, p). Some k \<noteq> nodeInterval (heart st)) (timers st) = []"
  by (auto simp: one_timer_def list_all_iff filter_empty_conv)

lemma no_timers_one [simp]: "timers st = [] \<Longrightarrow> one_timer st"
  by (simp add: one_timer_def)

lemma keeps_small [simp]:
  "keeps_timers st (emit e st)"
  "keeps_timers st (logger lv ps st)"
  "keeps_timers st (ws_send m st)"
  "keeps_timers st (ws_close code reason st)"
  by (simp_all add: keeps_timers_def)

lemma send_keeps: "keeps_timers st (dropping (send force m st) st)"
  by (auto simp: keeps_timers_def dropping_def send_def send_log_def send_rest_def
      checkOffline_def Let_def split: sum.splits)

lemma identify_keeps: "keeps_timers st (dropping (identify st) st)"
  by (simp add: identify_def send_keeps)

lemma resume_keeps: "keeps_timers st (dropping (resume st) st)"
  by (simp add: resume_def send_keeps)

lemma settle_dropping: "fst (settle res st) = dropping res st"
  by (simp add: settle_def dropping_def split: sum.splits)

lemma resume_sends_keeps: "keeps_timers st (snd (resume_sends ks st))"
proof (induction ks arbitrary: st)
  case Nil
  then show ?case by simp
next
  case (Cons k ks)
  show ?case
  proof (cases k)
    case (AwaitFirst force m)
    show ?thesis
    proof (cases "isOpen st")
      case True
      with Cons [of "emit (BucketProcess force) st"] show ?thesis
        by (simp add: AwaitFirst checkOffline_def Let_def split_beta keeps_timers_def)
    next
      case False
      define w where "w = (emit (BucketProcess force) st)
            \<lparr>offlineSendQueue :=
               (if force then next_promise st # offlineSendQueue st
                else offlineSendQueue st @ [next_promise st]),
             pending := pending st @ [(next_promise st, AwaitSecond m)],
             next_promise := Suc (next_promise st)\<rparr>"
      from False have "resume_sends (k # ks) st = resume_sends ks w"
        by (simp add: AwaitFirst checkOffline_def Let_def w_def)
      with Cons [of w] show ?thesis
        by (simp add: keeps_timers_def w_def)
    qed
  next
    case (AwaitSecond m)
    with Cons [of "ws_send m st"] show ?thesis
      by (simp add: keeps_timers_def)
  qed
qed

lemma fold_ws_send_keeps: "keeps_timers st (fold ws_send ms st)"
  by (induction ms arbitrary: st) (simp_all add: keeps_timers_def)

lemma run_released_keeps: "keeps_timers st (run_released ks st)"
  using resume_sends_keeps [of st ks]
    fold_ws_send_keeps [of "snd (resume_sends ks st)" "fst (resume_sends ks st)"]
  by (simp add: run_released_def split_beta keeps_timers_def)

lemma flush_and_forward_keeps: "keeps_timers st (flush_and_forward p st)"
  using run_released_keeps [of "emit (HandlePayload (shard_id st) p)
          (st\<lparr>pending := unsettled (offlineSendQueue st) (pending st)\<rparr>)"
        "released (offlineSendQueue st) (pending st)"]
  by (simp add: flush_and_forward_def keeps_timers_def)

lemma heartbeat_timers:
  "next_timer (heartbeat requested st) = next_timer st"
  "nodeInterval (heart (heartbeat requested st)) = nodeInterval (heart st)"
  "timers (heartbeat requested st) =
     (if \<not> requested \<and> \<not> ack (heart st)
      then filter (\<lambda>(k, p). Some k \<noteq> nodeInterval (heart st)) (timers st)
      else timers st)"
  "interval (heart (heartbeat requested st)) = interval (heart st)"
  by (simp_all add: heartbeat_def Let_def)

lemma heartbeat_one_timer:
  assumes "one_timer st"
  shows "one_timer (heartbeat requested st)"
proof (cases "\<not> requested \<and> \<not> ack (heart st)")
  case True
  with assms have "timers (heartbeat requested st) = []"
    by (simp add: heartbeat_timers one_timer_cleared)
  then show ?thesis by simp
next
  case False
  then have "keeps_timers st (heartbeat requested st)"
    by (auto simp: keeps_timers_def heartbeat_timers)
  from keeps_one_timer [OF this assms] show ?thesis .
qed

lemma connect_one_timer:
  assumes "one_timer st"
  shows "one_timer (connect st)"
proof (cases "isOpen st")
  case True
  then have "keeps_timers st (connect st)"
    by (simp add: keeps_timers_def)
  from keeps_one_timer [OF this assms] show ?thesis .
next
  case False
  with assms have "timers (connect st) = []"
    by (simp add: one_timer_cleared)
  then show ?thesis by simp
qed

lemma handleClosed_clears: "one_timer st \<Longrightarrow> timers (handleClosed code reason st) = []"
  by (simp add: handleClosed_def Let_def one_timer_cleared)

lemma hello_arms:
  assumes "one_timer st"
  shows "timers (fst (onpacket \<lparr>pkt_s = q, pkt_body = Hello hb\<rparr> st)) = [(next_timer st, hb)]"
    and "nodeInterval (heart (fst (onpacket \<lparr>pkt_s = q, pkt_body = Hello hb\<rparr> st))) =
           Some (next_timer st)"
    and "next_timer (fst (onpacket \<lparr>pkt_s = q, pkt_body = Hello hb\<rparr> st)) = Suc (next_timer st)"
proof -
  define st1 where "st1 = (case q of
                   None \<Rightarrow> st
                 | Some n \<Rightarrow> st\<lparr>data := (data st)\<lparr>resume_seq := Some n\<rparr>\<rparr>)"
  define st2 where "st2 = logger Debug [T (packet_name \<lparr>pkt_s = q, pkt_body = Hello hb\<rparr>),
                             seq_part (resume_seq (data st1))] st1"
  define a where "a = clearInterval (nodeInterval (heart st2)) st2"
  define b where "b = a\<lparr>heart := (heart a)\<lparr>interval := hb\<rparr>\<rparr>"
  define c where "c = heartbeat False b"
  define e where "e = setInterval (interval (heart c)) c"
  have k2: "keeps_timers st st2"
    by (simp add: st2_def st1_def keeps_timers_def split: option.splits)
  from keeps_one_timer [OF k2 assms] have "one_timer st2" .
  then have ta: "timers a = []"
    by (simp add: a_def one_timer_cleared)
  have na: "next_timer a = next_timer st"
    using k2 by (simp add: a_def keeps_timers_def)
  have tc: "timers c = []" "next_timer c = next_timer st" "interval (heart c) = hb"
    using ta na by (simp_all add: c_def b_def heartbeat_timers)
  have te: "timers e = [(next_timer st, hb)]" "nodeInterval (heart e) = Some (next_timer st)"
    "next_timer e = Suc (next_timer st)"
    using tc by (simp_all add: e_def)
  have "fst (onpacket \<lparr>pkt_s = q, pkt_body = Hello hb\<rparr> st) =
          (if resumable e then dropping (resume e) e else dropping (identify e) e)"
    by (simp add: onpacket_def Let_def settle_dropping st1_def st2_def a_def b_def c_def e_def)
  with resume_keeps [of e] identify_keeps [of e]
  have "keeps_timers e (fst (onpacket \<lparr>pkt_s = q, pkt_body = Hello hb\<rparr> st))"
    by simp
  with te show
    "timers (fst (onpacket \<lparr>pkt_s = q, pkt_body = Hello hb\<rparr> st)) = [(next_timer st, hb)]"
    "nodeInterval (heart (fst (onpacket \<lparr>pkt_s = q, pkt_body = Hello hb\<rparr> st))) =
           Some (next_timer st)"
    "next_timer (fst (onpacket \<lparr>pkt_s = q, pkt_body = Hello hb\<rparr> st)) = Suc (next_timer st)"
    by (simp_all add: keeps_timers_def)
qed

lemma onpacket_one_timer:
  assumes "one_timer st"
  shows "one_timer (fst (onpacket p st))"
proof -
  define st1 where "st1 = (case pkt_s p of
                   None \<Rightarrow> st
                 | Some n \<Rightarrow> st\<lparr>data := (data st)\<lparr>resume_seq := Some n\<rparr>\<rparr>)"
  define st2 where "st2 = logger Debug [T (packet_name p), seq_part (resume_seq (data st1))] st1"
  have k2: "keeps_timers st st2"
    by (simp add: st2_def st1_def keeps_timers_def split: option.splits)
  from keeps_one_timer [OF k2 assms] have o2: "one_timer st2" .
  show ?thesis
  proof (cases "pkt_body p")
    case (Hello hb)
    then have "p = \<lparr>pkt_s = pkt_s p, pkt_body = Hello hb\<rparr>" by simp
    with hello_arms [OF assms, of "pkt_s p" hb] show ?thesis
      by (simp add: one_timer_def)
  next
    case HeartbeatAck
    then have "fst (onpacket p st) =
        st2\<lparr>heart := (heart st2)\<lparr>ack := True, lastAck := Some (now st2)\<rparr>\<rparr>"
      by (simp add: onpacket_def Let_def st1_def st2_def)
    with o2 show ?thesis by (simp add: one_timer_def)
  next
    case Heartbeat
    then have "fst (onpacket p st) = heartbeat True st2"
      by (simp add: onpacket_def Let_def st1_def st2_def)
    with o2 show ?thesis by (simp add: heartbeat_one_timer)
  next
    case Reconnect
    then have "fst (onpacket p st) = reconnect st2"
      by (simp add: onpacket_def Let_def st1_def st2_def)
    with o2 show ?thesis by (simp add: one_timer_cleared)
  next
    case (InvalidSession b)
    define c where "c = st2\<lparr>data := (data st2)\<lparr>resume_seq := Some 0, session_id := None\<rparr>\<rparr>"
    have kc: "keeps_timers st2 c" by (simp add: c_def keeps_timers_def)
    from InvalidSession have "fst (onpacket p st) =
        (if b then
           (if \<not> resumable st2
            then logger Throw [T ''This is a completely unexpected error message.''] st2
            else dropping (resume st2) st2)
         else dropping (identify c) c)"
      by (simp add: onpacket_def Let_def settle_dropping st1_def st2_def c_def)
    with resume_keeps [of st2] identify_keeps [of c] kc
    have "keeps_timers st2 (fst (onpacket p st))"
      by (auto simp: keeps_timers_def)
    from keeps_one_timer [OF this o2] show ?thesis .
  next
    case (Dispatch ev)
    show ?thesis
    proof (cases ev)
      case (Ready u sid)
      define c where
        "c = st2\<lparr>data := (data st2)\<lparr>resume_gateway_url := Some u, session_id := Some sid\<rparr>\<rparr>"
      have kc: "keeps_timers st2 c" by (simp add: c_def keeps_timers_def)
      from Dispatch Ready have "fst (onpacket p st) = flush_and_forward p c"
        by (simp add: onpacket_def Let_def st1_def st2_def c_def)
      with flush_and_forward_keeps [of c p] kc have "keeps_timers st2 (fst (onpacket p st))"
        by (simp add: keeps_timers_def)
      from keeps_one_timer [OF this o2] show ?thesis .
    next
      case Resumed
      with Dispatch have "fst (onpacket p st) = flush_and_forward p st2"
        by (simp add: onpacket_def Let_def st1_def st2_def)
      with flush_and_forward_keeps [of st2 p] have "keeps_timers st2 (fst (onpacket p st))"
        by simp
      from keeps_one_timer [OF this o2] show ?thesis .
    next
      case (OtherEvent t)
      with Dispatch have "fst (onpacket p st) = emit (HandlePayload (shard_id st2) p) st2"
        by (simp add: onpacket_def Let_def st1_def st2_def)
      with o2 show ?thesis by (simp add: one_timer_def)
    qed
  next
    case (OtherOp n)
    then have "fst (onpacket p st) = st2"
      by (simp add: onpacket_def Let_def st1_def st2_def)
    with o2 show ?thesis by simp
  qed
qed

text \<open>
  A method or handler that runs from its start to its end with nothing in between
  keeps the invariant.
\<close>

lemma step_one_timer: "one_timer st \<Longrightarrow> one_timer (step a st)"
proof (cases a)
  case CallConnect
  assume "one_timer st"
  with CallConnect show ?thesis by (simp add: connect_one_timer)
next
  case (CallSend force m)
  assume "one_timer st"
  with CallSend keeps_one_timer [OF send_keeps [of st force m]] show ?thesis by simp
next
  case CallIdentify
  assume "one_timer st"
  with CallIdentify keeps_one_timer [OF identify_keeps [of st]] show ?thesis by simp
next
  case CallResume
  assume "one_timer st"
  with CallResume keeps_one_timer [OF resume_keeps [of st]] show ?thesis by simp
next
  case (CallHeartbeat requested)
  assume "one_timer st"
  with CallHeartbeat show ?thesis by (simp add: heartbeat_one_timer)
next
  case CallDisconnect
  assume "one_timer st"
  with CallDisconnect show ?thesis by (simp add: one_timer_cleared)
next
  case CallReconnect
  assume "one_timer st"
  with CallReconnect show ?thesis by (simp add: one_timer_cleared)
next
  case (CallOnpacket p)
  assume "one_timer st"
  with CallOnpacket show ?thesis by (simp add: onpacket_one_timer)
next
  case (CallClose code reason)
  assume "one_timer st"
  with CallClose show ?thesis by (simp add: one_timer_cleared)
next
  case (OnMessage parsed)
  assume "one_timer st"
  with OnMessage show ?thesis
    by (cases parsed) (simp_all add: handleMessage_def onpacket_one_timer, simp add: one_timer_def)
next
  case (OnClose code reason)
  assume "one_timer st"
  with OnClose handleClosed_clears [of st code reason] show ?thesis by simp
next
  case (OnError e)
  assume "one_timer st"
  with OnError show ?thesis by (simp add: one_timer_def)
next
  case OnOpen
  assume "one_timer st"
  with OnOpen show ?thesis by (simp add: one_timer_def)
next
  case (ReadyState r)
  assume "one_timer st"
  with ReadyState show ?thesis by (simp add: one_timer_def)
next
  case (TimerFires h)
  assume "one_timer st"
  with TimerFires show ?thesis by (simp add: heartbeat_one_timer)
next
  case (ClockTick n)
  assume "one_timer st"
  with ClockTick show ?thesis by (simp add: one_timer_def)
qed

text \<open>
  The Hello case of \<open>onpacket\<close> is its two halves one after the other, and the halves
  do this to the timers.
\<close>

lemma onpacket_hello_split:
  "onpacket \<lparr>pkt_s = q, pkt_body = Hello hb\<rparr> st = hello_resume (hello_begin q hb st)"
  by (simp add: onpacket_def hello_begin_def hello_resume_def Let_def)

lemma hello_begin_timers:
  "timers (hello_begin q hb st) =
     filter (\<lambda>(k, p). Some k \<noteq> nodeInterval (heart st)) (timers st)"
  "next_timer (hello_begin q hb st) = next_timer st"
  "nodeInterval (heart (hello_begin q hb st)) = nodeInterval (heart st)"
  "interval (heart (hello_begin q hb st)) = hb"
  by (simp_all add: hello_begin_def Let_def heartbeat_timers split: option.splits)

lemma send_heart: "heart (dropping (send force m st) st) = heart st"
  by (auto simp: dropping_def send_def send_log_def send_rest_def checkOffline_def Let_def
      split: sum.splits)

lemma hello_resume_timers:
  "timers (fst (hello_resume st)) = timers st @ [(next_timer st, interval (heart st))]"
  "next_timer (fst (hello_resume st)) = Suc (next_timer st)"
  "nodeInterval (heart (fst (hello_resume st))) = Some (next_timer st)"
  "interval (heart (fst (hello_resume st))) = interval (heart st)"
proof -
  define e where "e = setInterval (interval (heart st)) st"
  have eq: "fst (hello_resume st) =
              (if resumable e then dropping (resume e) e else dropping (identify e) e)"
    by (simp add: hello_resume_def Let_def settle_dropping e_def)
  have k: "keeps_timers e (fst (hello_resume st))"
    using resume_keeps [of e] identify_keeps [of e] by (simp add: eq)
  have h: "heart (fst (hello_resume st)) = heart e"
    by (simp add: eq resume_def identify_def send_heart)
  from k show "timers (fst (hello_resume st)) = timers st @ [(next_timer st, interval (heart st))]"
    "next_timer (fst (hello_resume st)) = Suc (next_timer st)"
    "nodeInterval (heart (fst (hello_resume st))) = Some (next_timer st)"
    by (simp_all add: keeps_timers_def e_def)
  from h show "interval (heart (fst (hello_resume st))) = interval (heart st)"
    by (simp add: e_def)
qed

text \<open>
  C7. The code breaks the claim. When a second Hello handler is started while the
  first waits at its \<open>await\<close>, each cancels the timer there is and each then arms one:
  from every state this leaves two new timers armed, both with the interval of the
  second packet, and \<open>heart.nodeInterval\<close> holds the handle of the second only. On a
  shard whose socket has opened the two are the timers 0 and 1; \<open>close\<close> and the close
  handler then cancel timer 1 and leave timer 0 armed for good. The same two packets
  handled one after the other leave timer 1 alone, as the claim says.
\<close>

theorem C7_overlapping_hellos_arm_two_timers:
  "timers (fst (hello_resume (fst (hello_resume
       (hello_begin q2 hb2 (hello_begin q1 hb1 st)))))) =
     filter (\<lambda>(k, p). Some k \<noteq> nodeInterval (heart st)) (timers st)
       @ [(next_timer st, hb2), (Suc (next_timer st), hb2)]
   \<and> nodeInterval (heart (fst (hello_resume (fst (hello_resume
       (hello_begin q2 hb2 (hello_begin q1 hb1 st))))))) = Some (Suc (next_timer st))
   \<and> timers (fst (hello_resume (fst (hello_resume
       (hello_begin None 45000 (hello_begin None 41250 (open_shard demo_options))))))) =
       [(0, 45000), (1, 45000)]
   \<and> timers (close Shutdown ''Shard down request'' (fst (hello_resume (fst (hello_resume
       (hello_begin None 45000 (hello_begin None 41250 (open_shard demo_options)))))))) =
       [(0, 45000)]
   \<and> timers (handleClosed ZombiedConnection ''Zombied connection''
       (fst (hello_resume (fst (hello_resume
          (hello_begin None 45000 (hello_begin None 41250 (open_shard demo_options)))))))) =
       [(0, 45000)]
   \<and> timers (fst (onpacket \<lparr>pkt_s = None, pkt_body = Hello 45000\<rparr>
        (fst (onpacket \<lparr>pkt_s = None, pkt_body = Hello 41250\<rparr> (open_shard demo_options))))) =
       [(1, 45000)]"
proof -
  have general: "timers (fst (hello_resume (fst (hello_resume
       (hello_begin q2 hb2 (hello_begin q1 hb1 st)))))) =
     filter (\<lambda>(k, p). Some k \<noteq> nodeInterval (heart st)) (timers st)
       @ [(next_timer st, hb2), (Suc (next_timer st), hb2)]"
    "nodeInterval (heart (fst (hello_resume (fst (hello_resume
       (hello_begin q2 hb2 (hello_begin q1 hb1 st))))))) = Some (Suc (next_timer st))"
    for q1 q2 hb1 hb2 st
    by (simp_all add: hello_resume_timers hello_begin_timers)
  let ?both = "fst (hello_resume (fst (hello_resume
       (hello_begin None 45000 (hello_begin None 41250 (open_shard demo_options))))))"
  have two: "timers ?both = [(0, 45000), (1, 45000)]"
    and handle: "nodeInterval (heart ?both) = Some 1"
    by (simp_all add: general)
  have closed: "timers (close Shutdown ''Shard down request'' ?both) = [(0, 45000)]"
    by (simp add: two handle)
  have handled: "timers (handleClosed ZombiedConnection ''Zombied connection'' ?both) = [(0, 45000)]"
    by (simp add: handleClosed_def Let_def two handle transient_def resumable_loss_def
        close_code_defs)
  have atomic: "timers (fst (onpacket \<lparr>pkt_s = None, pkt_body = Hello 45000\<rparr>
        (fst (onpacket \<lparr>pkt_s = None, pkt_body = Hello 41250\<rparr> (open_shard demo_options))))) =
       [(1, 45000)]"
    by (simp add: onpacket_hello_split hello_resume_timers hello_begin_timers)
  from general [of q2 hb2 q1 hb1 st] two closed handled atomic show ?thesis
    by simp
qed

end
